theory Spec2Isabelle
  imports Complex_Main "HOL-Library.Word"
begin

section \<open>Errors\<close>

text \<open>
  The Go code reports failures as \<open>error\<close> values built with the stacktrace package,
  some of them tagged with a dsserr code.  An error built without a code carries none;
  \<open>Propagate\<close> keeps the code of its cause, \<open>PropagateWithCode\<close> overrides it.
  Message texts are kept as the format strings of the source.
\<close>

text \<open>Modelled from the spec: the dsserr package is not among the sources.
  \<open>BadRequest\<close> is the code the source attaches to an error; \<open>NotFound\<close> is the code of
  the specification's error taxonomy for a nonexistent id, which no statement of the
  source attaches; \<open>NoCode\<close> is what an error built without a code carries.\<close>

datatype errcode = NoCode | BadRequest | NotFound

text \<open>The SQL statements issued by the two source files, and the places where the
  database/sql driver can hand back an error for one of them.\<close>

datatype stmt = SelectByIDStmt | UnnestCellsStmt | DeleteStmt | UpsertStmt | SearchStmt
  | BootstrapStmt | RollbackStmt

datatype point = AtQuery | AtScan | AtRowsErr | AtExec | AtRowsAffected

datatype error =
    Driver stmt point
  | CoveringError
  | ErrTxDone
  | NewError string
  | NewErrorWithCode errcode string
  | Propagate error string
  | PropagateWithCode error errcode string
  | Panic string

fun GetCode :: "error \<Rightarrow> errcode" where
  "GetCode (Driver s p) = NoCode"
| "GetCode CoveringError = NoCode"
| "GetCode ErrTxDone = NoCode"
| "GetCode (NewError m) = NoCode"
| "GetCode (NewErrorWithCode c m) = c"
| "GetCode (Propagate e m) = GetCode e"
| "GetCode (PropagateWithCode e c m) = c"
| "GetCode (Panic m) = NoCode"

section \<open>Data model of operational\_intents.go\<close>

type_synonym ID = string
type_synonym time = int
type_synonym OVN = string

text \<open>An \<open>s2.CellID\<close> is a \<open>uint64\<close>; the \<open>cells\<close> column holds \<open>int64\<close> values.
  The conversions \<open>int64(cell)\<close> and \<open>s2.CellID(uint64(cell))\<close> reinterpret the 64 bits.\<close>

type_synonym CellID = "64 word"

definition int64 :: "CellID \<Rightarrow> int" where
  "int64 c = sint c"

definition CellID_uint64 :: "int \<Rightarrow> CellID" where
  "CellID_uint64 c = word_of_int c"

text \<open>The columns of \<open>scd_operations\<close>, in the order of \<open>operationFieldsWithIndices\<close>.
  The columns wrapped in \<open>COALESCE\<close> by the search statement, and \<open>subscription_id\<close>,
  may be \<open>NULL\<close> (\<open>None\<close>).\<close>

definition operationFieldsWithIndices :: "string list" where
  "operationFieldsWithIndices =
     [''id'', ''owner'', ''version'', ''url'', ''altitude_lower'', ''altitude_upper'',
      ''starts_at'', ''ends_at'', ''subscription_id'', ''updated_at'', ''state'', ''cells'']"

record op_row =
  id_col :: ID
  owner :: string
  version :: int
  url :: string
  altitude_lower :: "real option"
  altitude_upper :: "real option"
  starts_at :: "time option"
  ends_at :: "time option"
  subscription_id :: "ID option"
  updated_at :: time
  state :: string
  cells :: "int list"

text \<open>The fields of \<open>scdmodels.OperationalIntent\<close> that the source file reads or writes.\<close>

record OperationalIntent =
  ID :: ID
  Manager :: string
  Version :: int
  USSBaseURL :: string
  AltitudeLower :: "real option"
  AltitudeUpper :: "real option"
  StartTime :: "time option"
  EndTime :: "time option"
  SubscriptionID :: "ID option"
  State :: string
  OVN :: OVN
  Cells :: "CellID list"

text \<open>
  The \<open>dsssql.Queryable\<close> held by the repo (\<open>s.q\<close>): the rows of \<open>scd_operations\<close>, the
  value \<open>transaction_timestamp()\<close> yields in the running transaction, and the driver
  faults that the backing store raises (none in a healthy store).
\<close>

record db =
  scd_operations :: "op_row list"
  transaction_timestamp :: time
  faults :: "(stmt \<times> point) list"

definition fault :: "db \<Rightarrow> stmt \<Rightarrow> point \<Rightarrow> bool" where
  "fault d s p = ((s, p) \<in> set (faults d))"

section \<open>SQL statements\<close>

text \<open>Comparison with \<open>NULL\<close> is \<open>NULL\<close>; \<open>COALESCE\<close> takes the first non-\<open>NULL\<close> value.\<close>

fun sql_ge :: "('a::linorder) option \<Rightarrow> 'a option \<Rightarrow> bool option" where
  "sql_ge (Some a) (Some b) = Some (a \<ge> b)"
| "sql_ge _ _ = None"

fun sql_le :: "('a::linorder) option \<Rightarrow> 'a option \<Rightarrow> bool option" where
  "sql_le (Some a) (Some b) = Some (a \<le> b)"
| "sql_le _ _ = None"

fun COALESCE :: "'a option \<Rightarrow> 'a \<Rightarrow> 'a" where
  "COALESCE (Some a) b = a"
| "COALESCE None b = b"

text \<open>The array operator \<open>&&\<close>: the two arrays have an element in common.\<close>

definition overlaps :: "int list \<Rightarrow> int list \<Rightarrow> bool" where
  "overlaps xs ys = list_ex (\<lambda>x. x \<in> set ys) xs"

text \<open>A statement of the operations repository together with its arguments
  \<open>$1, $2, ...\<close>, in the order the source passes them.\<close>

datatype opquery =
    SelectByID ID
  | UpsertQuery ID string int string "real option" "real option" "time option" "time option"
      "ID option" string "int list"
  | SearchQuery "int list" "real option" "real option" "time option" "time option"

fun stmt_of :: "opquery \<Rightarrow> stmt" where
  "stmt_of (SelectByID i) = SelectByIDStmt"
| "stmt_of (UpsertQuery a1 a2 a3 a4 a5 a6 a7 a8 a9 a10 a11) = UpsertStmt"
| "stmt_of (SearchQuery a1 a2 a3 a4 a5) = SearchStmt"

text \<open>The \<open>WHERE\<close> clause of \<open>operationsIntersectingVolumeQuery\<close>.\<close>

definition search_where :: "int list \<Rightarrow> real option \<Rightarrow> real option \<Rightarrow> time option
    \<Rightarrow> time option \<Rightarrow> op_row \<Rightarrow> bool" where
  "search_where a1 a2 a3 a4 a5 r =
     (overlaps (cells r) a1
      \<and> COALESCE (sql_ge (altitude_upper r) a2) True
      \<and> COALESCE (sql_le (altitude_lower r) a3) True
      \<and> COALESCE (sql_ge (ends_at r) a4) True
      \<and> COALESCE (sql_le (starts_at r) a5) True)"

text \<open>\<open>UPSERT INTO\<close>: the row replaces the stored row with the same key \<open>id\<close>, or is
  added when there is none.\<close>

definition upsert_row :: "op_row \<Rightarrow> op_row list \<Rightarrow> op_row list" where
  "upsert_row r rs =
     (if id_col r \<in> set (map id_col rs)
      then map (\<lambda>r'. if id_col r' = id_col r then r else r') rs
      else rs @ [r])"

text \<open>What a statement returns and how it leaves the table.  The upsert writes
  \<open>transaction_timestamp()\<close> into \<open>updated_at\<close> and returns the written row.\<close>

fun run_query :: "db \<Rightarrow> opquery \<Rightarrow> op_row list \<times> db" where
  "run_query d (SelectByID i) = (filter (\<lambda>r. id_col r = i) (scd_operations d), d)"
| "run_query d (UpsertQuery a1 a2 a3 a4 a5 a6 a7 a8 a9 a10 a11) =
     (let r = \<lparr>id_col = a1, owner = a2, version = a3, url = a4, altitude_lower = a5,
                altitude_upper = a6, starts_at = a7, ends_at = a8, subscription_id = a9,
                updated_at = transaction_timestamp d, state = a10, cells = a11\<rparr>
      in ([r], d\<lparr>scd_operations := upsert_row r (scd_operations d)\<rparr>))"
| "run_query d (SearchQuery a1 a2 a3 a4 a5) =
     (filter (search_where a1 a2 a3 a4 a5) (scd_operations d), d)"

text \<open>\<open>q.QueryContext\<close>: the driver's error, or the rows and the store after the
  statement.\<close>

definition QueryContext :: "db \<Rightarrow> opquery \<Rightarrow> error + (op_row list \<times> db)" where
  "QueryContext d qu =
     (if fault d (stmt_of qu) AtQuery then Inl (Driver (stmt_of qu) AtQuery)
      else Inr (run_query d qu))"

text \<open>The statement of \<open>populateOperationalIntentCells\<close>:
  \<open>SELECT unnest(cells) FROM scd_operations WHERE id = $1\<close>, one result row per cell.\<close>

definition unnest_cells :: "db \<Rightarrow> ID \<Rightarrow> int list" where
  "unnest_cells d i = concat (map cells (filter (\<lambda>r. id_col r = i) (scd_operations d)))"

section \<open>The repository functions\<close>

text \<open>\<open>populateOperationalIntentCells\<close> (lines 124-152).  The Go function overwrites
  \<open>o.Cells\<close> in place; the model returns the updated entity.\<close>

definition populateOperationalIntentCells :: "db \<Rightarrow> OperationalIntent \<Rightarrow> error + OperationalIntent" where
  "populateOperationalIntentCells d o' =
     (if fault d UnnestCellsStmt AtQuery
      then Inl (Propagate (Driver UnnestCellsStmt AtQuery) ''Error in query: %s'')
      else let rows = unnest_cells d (ID o') in
        if rows \<noteq> [] \<and> fault d UnnestCellsStmt AtScan
        then Inl (Propagate (Driver UnnestCellsStmt AtScan) ''Error scanning cell ID row'')
        else if fault d UnnestCellsStmt AtRowsErr
        then Inl (Propagate (Driver UnnestCellsStmt AtRowsErr) ''Error in rows query result'')
        else Inr (o'\<lparr>Cells := map CellID_uint64 rows\<rparr>))"

text \<open>Modelled from the spec: \<open>SetCells\<close> of scdmodels is not among the sources; the
  core row fetch hands it the scanned \<open>cells\<close> array, and it stores those ids as the
  entity's cell set.\<close>

definition SetCells :: "int list \<Rightarrow> OperationalIntent \<Rightarrow> OperationalIntent" where
  "SetCells cids o' = o'\<lparr>Cells := map CellID_uint64 cids\<rparr>"

text \<open>The body of the scan loop (lines 63-86) for one row.  \<open>NewOVNFromTime\<close> of
  scdmodels is not among the sources and is taken as the parameter \<open>ovnf\<close>; an id is
  its own string.\<close>

definition scan_row :: "(time \<Rightarrow> string \<Rightarrow> OVN) \<Rightarrow> op_row \<Rightarrow> OperationalIntent" where
  "scan_row ovnf r =
     SetCells (cells r)
       \<lparr>ID = id_col r, Manager = owner r, Version = version r, USSBaseURL = url r,
        AltitudeLower = altitude_lower r, AltitudeUpper = altitude_upper r,
        StartTime = starts_at r, EndTime = ends_at r, SubscriptionID = subscription_id r,
        State = state r, OVN = ovnf (updated_at r) (id_col r), Cells = []\<rparr>"

text \<open>The loop of lines 92-96.\<close>

fun populate_loop :: "db \<Rightarrow> OperationalIntent list \<Rightarrow> error + OperationalIntent list" where
  "populate_loop d [] = Inr []"
| "populate_loop d (op # ops) =
     (case populateOperationalIntentCells d op of
        Inl e \<Rightarrow> Inl (Propagate e ''Error populating cells for Operation %s'')
      | Inr op' \<Rightarrow>
          (case populate_loop d ops of Inl e \<Rightarrow> Inl e | Inr ops' \<Rightarrow> Inr (op' # ops')))"

text \<open>\<open>fetchOperationalIntents\<close> (lines 53-99).  The store is returned as well: a
  statement that was executed has taken effect even when a later step fails.\<close>

definition fetchOperationalIntents :: "(time \<Rightarrow> string \<Rightarrow> OVN) \<Rightarrow> db \<Rightarrow> opquery
    \<Rightarrow> (error + OperationalIntent list) \<times> db" where
  "fetchOperationalIntents ovnf d qu =
     (case QueryContext d qu of
        Inl err \<Rightarrow> (Inl (Propagate err ''Error in query: %s''), d)
      | Inr (rows, d') \<Rightarrow>
          if rows \<noteq> [] \<and> fault d (stmt_of qu) AtScan
          then (Inl (Propagate (Driver (stmt_of qu) AtScan) ''Error scanning Operation row''), d')
          else if fault d (stmt_of qu) AtRowsErr
          then (Inl (Propagate (Driver (stmt_of qu) AtRowsErr) ''Error in rows query result''), d')
          else (populate_loop d' (map (scan_row ovnf) rows), d'))"

text \<open>\<open>fetchOperationalIntent\<close> (lines 101-113); a nil entity is \<open>None\<close>.\<close>

definition fetchOperationalIntent :: "(time \<Rightarrow> string \<Rightarrow> OVN) \<Rightarrow> db \<Rightarrow> opquery
    \<Rightarrow> (error + OperationalIntent option) \<times> db" where
  "fetchOperationalIntent ovnf d qu =
     (case fetchOperationalIntents ovnf d qu of
        (Inl err, d') \<Rightarrow> (Inl err, d')
      | (Inr operations, d') \<Rightarrow>
          if length operations > 1
          then (Inl (NewError ''Query returned %d Operations when only 0 or 1 was expected''), d')
          else (case operations of
                  [] \<Rightarrow> (Inr None, d')
                | op # _ \<Rightarrow> (Inr (Some op), d')))"

definition fetchOperationByID :: "(time \<Rightarrow> string \<Rightarrow> OVN) \<Rightarrow> db \<Rightarrow> ID
    \<Rightarrow> (error + OperationalIntent option) \<times> db" where
  "fetchOperationByID ovnf d i = fetchOperationalIntent ovnf d (SelectByID i)"

definition GetOperationalIntent :: "(time \<Rightarrow> string \<Rightarrow> OVN) \<Rightarrow> db \<Rightarrow> ID
    \<Rightarrow> (error + OperationalIntent option) \<times> db" where
  "GetOperationalIntent ovnf d i = fetchOperationByID ovnf d i"

text \<open>\<open>DeleteOperationalIntent\<close> (lines 160-183): the returned error (\<open>None\<close> is nil)
  and the store afterwards.\<close>

definition DeleteOperationalIntent :: "db \<Rightarrow> ID \<Rightarrow> error option \<times> db" where
  "DeleteOperationalIntent d i =
     (if fault d DeleteStmt AtExec
      then (Some (Propagate (Driver DeleteStmt AtExec) ''Error in query: %s''), d)
      else
        let rows = length (filter (\<lambda>r. id_col r = i) (scd_operations d));
            d' = d\<lparr>scd_operations := filter (\<lambda>r. id_col r \<noteq> i) (scd_operations d)\<rparr>
        in if fault d DeleteStmt AtRowsAffected
           then (Some (Propagate (Driver DeleteStmt AtRowsAffected) ''Could not get RowsAffected''), d')
           else if rows = 0
           then (Some (NewError ''Could not delete Operation that does not exist''), d')
           else (None, d'))"

text \<open>\<open>UpsertOperationalIntent\<close> (lines 186-226).  \<open>clevels\<close> is computed and never
  used, so it is left out.  Assigning through a nil entity panics.\<close>

definition UpsertOperationalIntent :: "(time \<Rightarrow> string \<Rightarrow> OVN) \<Rightarrow> db \<Rightarrow> OperationalIntent
    \<Rightarrow> (error + OperationalIntent) \<times> db" where
  "UpsertOperationalIntent ovnf d operation =
     (let cids = map int64 (Cells operation);
          cells' = Cells operation
      in case fetchOperationalIntent ovnf d
                (UpsertQuery (ID operation) (Manager operation) (Version operation)
                   (USSBaseURL operation) (AltitudeLower operation) (AltitudeUpper operation)
                   (StartTime operation) (EndTime operation) (SubscriptionID operation)
                   (State operation) cids) of
           (Inl err, d') \<Rightarrow> (Inl (Propagate err ''Error fetching Operation''), d')
         | (Inr None, d') \<Rightarrow> (Inl (Panic ''nil pointer dereference''), d')
         | (Inr (Some operation'), d') \<Rightarrow> (Inr (operation'\<lparr>Cells := cells'\<rparr>), d'))"

section \<open>Search\<close>

text \<open>Modelled from the spec: the geometry types of dssmodels are not among the sources.
  A footprint is represented by what its \<open>CalculateCovering\<close> returns: the covering,
  or an error.\<close>

datatype geometry = Geometry "error + CellID list"

fun CalculateCovering :: "geometry \<Rightarrow> error + CellID list" where
  "CalculateCovering (Geometry res) = res"

record Volume3D =
  Footprint :: "geometry option"
  AltitudeLo :: "real option"
  AltitudeHi :: "real option"

record Volume4D =
  SpatialVolume :: "Volume3D option"
  StartTime_v4d :: "time option"
  EndTime_v4d :: "time option"

text \<open>\<open>searchOperationalIntents\<close> (lines 228-276); a nil pointer is \<open>None\<close>.\<close>

definition searchOperationalIntents :: "(time \<Rightarrow> string \<Rightarrow> OVN) \<Rightarrow> db \<Rightarrow> Volume4D
    \<Rightarrow> (error + OperationalIntent list) \<times> db" where
  "searchOperationalIntents ovnf d v4d =
     (case SpatialVolume v4d of
        None \<Rightarrow> (Inl (NewErrorWithCode BadRequest ''Missing geospatial footprint for query''), d)
      | Some sv \<Rightarrow>
         (case Footprint sv of
            None \<Rightarrow> (Inl (NewErrorWithCode BadRequest ''Missing geospatial footprint for query''), d)
          | Some fp \<Rightarrow>
             (case CalculateCovering fp of
                Inl err \<Rightarrow>
                  (Inl (PropagateWithCode err BadRequest ''Failed to calculate footprint covering''), d)
              | Inr cells' \<Rightarrow>
                  if length cells' = 0
                  then (Inl (NewErrorWithCode BadRequest ''Missing cell IDs for query''), d)
                  else
                    let cids = map int64 cells'
                    in (case fetchOperationalIntents ovnf d
                               (SearchQuery cids (AltitudeLo sv) (AltitudeHi sv)
                                  (StartTime_v4d v4d) (EndTime_v4d v4d)) of
                          (Inl err, d') \<Rightarrow> (Inl (Propagate err ''Error fetching Operations''), d')
                        | (Inr result, d') \<Rightarrow> (Inr result, d')))))"

definition SearchOperationalIntents :: "(time \<Rightarrow> string \<Rightarrow> OVN) \<Rightarrow> db \<Rightarrow> Volume4D
    \<Rightarrow> (error + OperationalIntent list) \<times> db" where
  "SearchOperationalIntents ovnf d v4d = searchOperationalIntents ovnf d v4d"

text \<open>The matching rule in the words of the specification, over the stored cell
  identifiers and the filter's cell identifiers: the cell sets intersect, and each of the
  four bounds of the entity is absent or ordered against the filter's bound.  An
  optional bound of the filter that is absent does not constrain.\<close>

fun opt_le :: "('a::linorder) option \<Rightarrow> 'a option \<Rightarrow> bool" where
  "opt_le (Some a) (Some b) = (a \<le> b)"
| "opt_le _ _ = True"

definition spec_matches :: "int list \<Rightarrow> real option \<Rightarrow> real option \<Rightarrow> time option
    \<Rightarrow> time option \<Rightarrow> op_row \<Rightarrow> bool" where
  "spec_matches fcells flo fhi fstart fend r =
     (set (cells r) \<inter> set fcells \<noteq> {}
      \<and> (altitude_upper r = None \<or> opt_le flo (altitude_upper r))
      \<and> (altitude_lower r = None \<or> opt_le (altitude_lower r) fhi)
      \<and> (ends_at r = None \<or> opt_le fstart (ends_at r))
      \<and> (starts_at r = None \<or> opt_le (starts_at r) fend))"

section \<open>Transaction fault handling (store.go)\<close>

text \<open>The state a deferred function sees: the value of the panic in flight (\<open>None\<close>
  when the function body returned normally), the transaction and the log.
  \<open>rollback_fault\<close> says whether the driver fails the rollback.\<close>

datatype tx_status = TxOpen | TxRolledBack | TxCommitted | TxRollbackFailed

record scope =
  panicking :: "string option"
  tx :: tx_status
  log_lines :: "string list"
  rollback_fault :: bool

text \<open>The built-in \<open>recover()\<close> called by a deferred function: it returns the panic
  value and stops the panic.\<close>

definition recover :: "scope \<Rightarrow> string option \<times> scope" where
  "recover g = (panicking g, g\<lparr>panicking := None\<rparr>)"

text \<open>\<open>tx.Rollback()\<close> of database/sql: a transaction that is already finished yields
  \<open>ErrTxDone\<close>; otherwise the transaction is marked finished before the driver is
  called, so it is no longer open when the driver fails the rollback.\<close>

definition Rollback :: "scope \<Rightarrow> error option \<times> scope" where
  "Rollback g =
     (if tx g \<noteq> TxOpen then (Some ErrTxDone, g)
      else if rollback_fault g
      then (Some (Driver RollbackStmt AtExec), g\<lparr>tx := TxRollbackFailed\<rparr>)
      else (None, g\<lparr>tx := TxRolledBack\<rparr>))"

text \<open>\<open>recoverRollbackRepanic\<close> (store.go, lines 27-35).  The body ends after the
  rollback and its logging; there is no statement that panics again.\<close>

definition recoverRollbackRepanic :: "scope \<Rightarrow> scope" where
  "recoverRollbackRepanic g =
     (case recover g of
        (None, g') \<Rightarrow> g'
      | (Some p, g') \<Rightarrow>
          (case Rollback g' of
             (Some err, g'') \<Rightarrow> g''\<lparr>log_lines := log_lines g'' @ [''failed to rollback transaction'']\<rparr>
           | (None, g'') \<Rightarrow> g''))"

section \<open>Schema bootstrap (store.go)\<close>

text \<open>SQL values, column types, and the expressions that occur in the \<open>CHECK\<close>
  constraints of the bootstrap statement.\<close>

datatype sqlval = VNull | VBool bool | VInt int | VStr string | VTimestamp int | VArray "int list"

datatype coltype = UUID | STRING | INT4 | TIMESTAMPTZ | INT64_ARRAY

fun has_type :: "sqlval \<Rightarrow> coltype \<Rightarrow> bool" where
  "has_type VNull t = True"
| "has_type (VStr s) t = (t = UUID \<or> t = STRING)"
| "has_type (VInt n) t = (t = INT4)"
| "has_type (VTimestamp n) t = (t = TIMESTAMPTZ)"
| "has_type (VArray xs) t = (t = INT64_ARRAY)"
| "has_type (VBool b) t = False"

datatype expr =
    Col string
  | Lit int
  | ArrayLength expr int
  | IsNull expr
  | IsNotNull expr
  | Less expr expr
  | Greater expr expr
  | And expr expr
  | Or expr expr

record column =
  col_name :: string
  col_type :: coltype
  not_null :: bool
  col_default :: sqlval

datatype index = Index string "string list" | InvertedIndex string "string list"

record table_def =
  columns :: "column list"
  primary_key :: string
  indexes :: "index list"
  checks :: "expr list"

type_synonym sqlrow = "string \<Rightarrow> sqlval"

text \<open>Three-valued logic: a comparison with \<open>NULL\<close> is \<open>NULL\<close>; \<open>array_length\<close> of an
  empty array is \<open>NULL\<close>.\<close>

fun sql_and :: "sqlval \<Rightarrow> sqlval \<Rightarrow> sqlval" where
  "sql_and (VBool False) b = VBool False"
| "sql_and a (VBool False) = VBool False"
| "sql_and (VBool True) (VBool True) = VBool True"
| "sql_and a b = VNull"

fun sql_or :: "sqlval \<Rightarrow> sqlval \<Rightarrow> sqlval" where
  "sql_or (VBool True) b = VBool True"
| "sql_or a (VBool True) = VBool True"
| "sql_or (VBool False) (VBool False) = VBool False"
| "sql_or a b = VNull"

fun sql_less :: "sqlval \<Rightarrow> sqlval \<Rightarrow> sqlval" where
  "sql_less (VInt a) (VInt b) = VBool (a < b)"
| "sql_less (VTimestamp a) (VTimestamp b) = VBool (a < b)"
| "sql_less a b = VNull"

fun eval :: "sqlrow \<Rightarrow> expr \<Rightarrow> sqlval" where
  "eval row (Col c) = row c"
| "eval row (Lit n) = VInt n"
| "eval row (ArrayLength e k) =
     (case eval row e of
        VArray xs \<Rightarrow> if k = 1 \<and> xs \<noteq> [] then VInt (int (length xs)) else VNull
      | _ \<Rightarrow> VNull)"
| "eval row (IsNull e) = VBool (eval row e = VNull)"
| "eval row (IsNotNull e) = VBool (eval row e \<noteq> VNull)"
| "eval row (Less a b) = sql_less (eval row a) (eval row b)"
| "eval row (Greater a b) = sql_less (eval row b) (eval row a)"
| "eval row (And a b) = sql_and (eval row a) (eval row b)"
| "eval row (Or a b) = sql_or (eval row a) (eval row b)"

text \<open>A table accepts a row when every column holds a value of its type, a
  \<open>NOT NULL\<close> or key column holds a value, and no \<open>CHECK\<close> evaluates to false.\<close>

definition column_ok :: "table_def \<Rightarrow> sqlrow \<Rightarrow> column \<Rightarrow> bool" where
  "column_ok t row c =
     (has_type (row (col_name c)) (col_type c)
      \<and> (\<not> ((not_null c \<or> col_name c = primary_key t) \<and> row (col_name c) = VNull)))"

definition accepts :: "table_def \<Rightarrow> sqlrow \<Rightarrow> bool" where
  "accepts t row =
     (list_all (column_ok t row) (columns t)
      \<and> list_all (\<lambda>e. eval row e \<noteq> VBool False) (checks t))"

text \<open>The two \<open>CREATE TABLE\<close> statements of the bootstrap query.\<close>

definition time_check :: expr where
  "time_check =
     Or (Or (IsNull (Col ''starts_at'')) (IsNull (Col ''ends_at'')))
        (Less (Col ''starts_at'') (Col ''ends_at''))"

definition subscriptions_table :: table_def where
  "subscriptions_table =
     \<lparr>columns =
        [\<lparr>col_name = ''id'', col_type = UUID, not_null = False, col_default = VNull\<rparr>,
         \<lparr>col_name = ''owner'', col_type = STRING, not_null = True, col_default = VNull\<rparr>,
         \<lparr>col_name = ''url'', col_type = STRING, not_null = True, col_default = VNull\<rparr>,
         \<lparr>col_name = ''notification_index'', col_type = INT4, not_null = False,
          col_default = VInt 0\<rparr>,
         \<lparr>col_name = ''starts_at'', col_type = TIMESTAMPTZ, not_null = False, col_default = VNull\<rparr>,
         \<lparr>col_name = ''ends_at'', col_type = TIMESTAMPTZ, not_null = False, col_default = VNull\<rparr>,
         \<lparr>col_name = ''updated_at'', col_type = TIMESTAMPTZ, not_null = True, col_default = VNull\<rparr>,
         \<lparr>col_name = ''cells'', col_type = INT64_ARRAY, not_null = True, col_default = VNull\<rparr>],
      primary_key = ''id'',
      indexes =
        [Index ''owner_idx'' [''owner''], InvertedIndex ''cells_idx'' [''cells''],
         Index ''starts_at_idx'' [''starts_at''], Index ''ends_at_idx'' [''ends_at'']],
      checks =
        [And (Greater (ArrayLength (Col ''cells'') 1) (Lit 0))
             (IsNotNull (ArrayLength (Col ''cells'') 1)),
         time_check]\<rparr>"

definition identification_service_areas_table :: table_def where
  "identification_service_areas_table =
     \<lparr>columns =
        [\<lparr>col_name = ''id'', col_type = UUID, not_null = False, col_default = VNull\<rparr>,
         \<lparr>col_name = ''owner'', col_type = STRING, not_null = True, col_default = VNull\<rparr>,
         \<lparr>col_name = ''url'', col_type = STRING, not_null = True, col_default = VNull\<rparr>,
         \<lparr>col_name = ''starts_at'', col_type = TIMESTAMPTZ, not_null = False, col_default = VNull\<rparr>,
         \<lparr>col_name = ''ends_at'', col_type = TIMESTAMPTZ, not_null = False, col_default = VNull\<rparr>,
         \<lparr>col_name = ''updated_at'', col_type = TIMESTAMPTZ, not_null = True, col_default = VNull\<rparr>,
         \<lparr>col_name = ''cells'', col_type = INT64_ARRAY, not_null = True, col_default = VNull\<rparr>],
      primary_key = ''id'',
      indexes =
        [Index ''owner_idx'' [''owner''], InvertedIndex ''cells_idx'' [''cells''],
         Index ''starts_at_idx'' [''starts_at''], Index ''ends_at_idx'' [''ends_at''],
         Index ''updated_at_idx'' [''updated_at'']],
      checks = [IsNotNull (ArrayLength (Col ''cells'') 1), time_check]\<rparr>"

text \<open>The \<open>cockroach.DB\<close> embedded in the Store: the tables that exist, by name, and
  the driver faults.\<close>

record catalog =
  tables :: "(string \<times> table_def) list"
  exec_faults :: "(stmt \<times> point) list"

text \<open>\<open>CREATE TABLE IF NOT EXISTS\<close>: nothing happens when a table of that name exists.\<close>

definition create_table_if_not_exists :: "string \<Rightarrow> table_def \<Rightarrow> (string \<times> table_def) list
    \<Rightarrow> (string \<times> table_def) list" where
  "create_table_if_not_exists n t ts = (if n \<in> set (map fst ts) then ts else ts @ [(n, t)])"

text \<open>\<open>Bootstrap\<close> (store.go, lines 55-113): the returned error and the catalog
  afterwards.\<close>

definition Bootstrap :: "catalog \<Rightarrow> error option \<times> catalog" where
  "Bootstrap s =
     (if (BootstrapStmt, AtExec) \<in> set (exec_faults s)
      then (Some (Driver BootstrapStmt AtExec), s)
      else (None,
            s\<lparr>tables :=
                create_table_if_not_exists ''identification_service_areas''
                  identification_service_areas_table
                  (create_table_if_not_exists ''subscriptions'' subscriptions_table
                     (tables s))\<rparr>))"

text \<open>Whether the table of a given name accepts a row.\<close>

definition table_accepts :: "catalog \<Rightarrow> string \<Rightarrow> sqlrow \<Rightarrow> bool" where
  "table_accepts s n row =
     (case map_of (tables s) n of None \<Rightarrow> False | Some t \<Rightarrow> accepts t row)"

section \<open>What the repository reads and writes for a row\<close>

text \<open>The entity that \<open>fetchOperationalIntents\<close> builds for a returned row: the scanned
  row with its cells replaced by the result of the unnest statement.\<close>

definition fetched :: "(time \<Rightarrow> string \<Rightarrow> OVN) \<Rightarrow> db \<Rightarrow> op_row \<Rightarrow> OperationalIntent" where
  "fetched ovnf d r = (scan_row ovnf r)\<lparr>Cells := map CellID_uint64 (unnest_cells d (id_col r))\<rparr>"

text \<open>The row that the \<open>UPSERT\<close> statement of \<open>UpsertOperationalIntent\<close> writes for an
  entity: the arguments \<open>$1\<close> to \<open>$11\<close> and the transaction timestamp.\<close>

definition upsert_values :: "db \<Rightarrow> OperationalIntent \<Rightarrow> op_row" where
  "upsert_values d operation =
     \<lparr>id_col = ID operation, owner = Manager operation, version = Version operation,
      url = USSBaseURL operation, altitude_lower = AltitudeLower operation,
      altitude_upper = AltitudeUpper operation, starts_at = StartTime operation,
      ends_at = EndTime operation, subscription_id = SubscriptionID operation,
      updated_at = transaction_timestamp d, state = State operation,
      cells = map int64 (Cells operation)\<rparr>"

section \<open>Sample data\<close>

text \<open>Two stored operational intents, a store holding them, a table in which one id
  occurs twice, and a token codec that tells all timestamps from 0 on apart; they serve
  to evaluate the functions on concrete inputs.\<close>

definition row1 :: op_row where
  "row1 = \<lparr>id_col = ''op1'', owner = ''uss1'', version = 1, url = ''https://uss1.example'',
            altitude_lower = Some 0, altitude_upper = Some 500, starts_at = Some 10,
            ends_at = Some 20, subscription_id = None, updated_at = 5, state = ''Accepted'',
            cells = [100, 101]\<rparr>"

definition row2 :: op_row where
  "row2 = \<lparr>id_col = ''op2'', owner = ''uss2'', version = 3, url = ''https://uss2.example'',
            altitude_lower = None, altitude_upper = None, starts_at = None,
            ends_at = None, subscription_id = Some ''sub1'', updated_at = 7,
            state = ''Activated'', cells = [101, 300]\<rparr>"

definition store2 :: db where
  "store2 = \<lparr>scd_operations = [row1, row2], transaction_timestamp = 9, faults = []\<rparr>"

definition store_dup :: db where
  "store_dup = \<lparr>scd_operations = [row1, row1\<lparr>version := 2\<rparr>], transaction_timestamp = 9,
                 faults = []\<rparr>"

definition sample_ovn :: "time \<Rightarrow> string \<Rightarrow> OVN" where
  "sample_ovn t i = replicate (nat t) (CHR ''1'') @ CHR '':'' # i"


text \<open>An update of the first stored intent that carries a token, and a search filter.\<close>

definition intent1 :: OperationalIntent where
  "intent1 = \<lparr>ID = ''op1'', Manager = ''uss1'', Version = 2, USSBaseURL = ''https://new.example'',
               AltitudeLower = Some 0, AltitudeUpper = Some 500, StartTime = Some 10,
               EndTime = Some 20, SubscriptionID = None, State = ''Accepted'',
               OVN = ''stale-token'', Cells = [100, 102]\<rparr>"

definition volume1 :: Volume3D where
  "volume1 = \<lparr>Footprint = Some (Geometry (Inr [101, 200])),
               AltitudeLo = Some 400, AltitudeHi = Some 600\<rparr>"

definition filter1 :: Volume4D where
  "filter1 = \<lparr>SpatialVolume = Some volume1, StartTime_v4d = Some 20, EndTime_v4d = Some 30\<rparr>"

text \<open>An empty store, a second update of the same intent, a filter whose covering fails,
  a filter far from every stored intent, a panicking scope, an empty catalog and a
  subscription row.\<close>

definition store0 :: db where
  "store0 = \<lparr>scd_operations = [], transaction_timestamp = 9, faults = []\<rparr>"

definition intent2 :: OperationalIntent where
  "intent2 = intent1\<lparr>USSBaseURL := ''https://newer.example'', Version := 3\<rparr>"

definition volume_bad :: Volume3D where
  "volume_bad = \<lparr>Footprint = Some (Geometry (Inl CoveringError)),
                  AltitudeLo = None, AltitudeHi = None\<rparr>"

definition filter_bad :: Volume4D where
  "filter_bad = \<lparr>SpatialVolume = Some volume_bad, StartTime_v4d = None, EndTime_v4d = None\<rparr>"

definition volume_far :: Volume3D where
  "volume_far = \<lparr>Footprint = Some (Geometry (Inr [999])),
                  AltitudeLo = Some 600, AltitudeHi = Some 700\<rparr>"

definition filter_far :: Volume4D where
  "filter_far = \<lparr>SpatialVolume = Some volume_far, StartTime_v4d = None, EndTime_v4d = None\<rparr>"

definition scope_panic :: scope where
  "scope_panic = \<lparr>panicking = Some ''runtime error: index out of range'', tx = TxOpen,
                   log_lines = [], rollback_fault = False\<rparr>"

definition catalog0 :: catalog where
  "catalog0 = \<lparr>tables = [], exec_faults = []\<rparr>"

definition sub_row :: sqlrow where
  "sub_row = (\<lambda>c. VNull)
     (''id'' := VStr ''6f1a'', ''owner'' := VStr ''uss1'', ''url'' := VStr ''https://uss1.example'',
      ''starts_at'' := VTimestamp 10, ''ends_at'' := VTimestamp 20,
      ''updated_at'' := VTimestamp 5, ''cells'' := VArray [10, 11, 12])"

section \<open>Properties of the repository functions in a healthy store\<close>

lemma populate_healthy:
  "faults d = [] \<Longrightarrow> populateOperationalIntentCells d op =
     Inr (op\<lparr>Cells := map CellID_uint64 (unnest_cells d (ID op))\<rparr>)"
  by (simp add: populateOperationalIntentCells_def fault_def)

lemma populate_loop_healthy:
  "faults d = [] \<Longrightarrow> populate_loop d ops =
     Inr (map (\<lambda>op. op\<lparr>Cells := map CellID_uint64 (unnest_cells d (ID op))\<rparr>) ops)"
  by (induction ops) (simp_all add: populate_healthy)

lemma run_query_faults: "faults (snd (run_query d qu)) = faults d"
  by (cases qu) (simp_all add: Let_def)

lemma run_query_timestamp:
  "transaction_timestamp (snd (run_query d qu)) = transaction_timestamp d"
  by (cases qu) (simp_all add: Let_def)

lemma fetch_healthy:
  assumes "faults d = []"
  shows "fetchOperationalIntents ovnf d qu =
     (Inr (map (\<lambda>r. (scan_row ovnf r)
                  \<lparr>Cells := map CellID_uint64 (unnest_cells (snd (run_query d qu)) (id_col r))\<rparr>)
            (fst (run_query d qu))), snd (run_query d qu))"
proof -
  obtain rows d' where rq: "run_query d qu = (rows, d')"
    by (cases "run_query d qu")
  have "faults d' = []"
    using run_query_faults[of d qu] rq assms by simp
  then have "populate_loop d' (map (scan_row ovnf) rows) =
      Inr (map (\<lambda>r. (scan_row ovnf r)\<lparr>Cells := map CellID_uint64 (unnest_cells d' (id_col r))\<rparr>) rows)"
    by (simp add: populate_loop_healthy scan_row_def SetCells_def comp_def)
  then show ?thesis
    using assms rq by (simp add: fetchOperationalIntents_def QueryContext_def fault_def)
qed

lemma filter_id_absent: "i \<notin> id_col ` set rs \<Longrightarrow> filter (\<lambda>r. id_col r = i) rs = []"
  by (induction rs) auto

lemma filter_id_others: "i \<notin> id_col ` set rs \<Longrightarrow> filter (\<lambda>r. id_col r \<noteq> i) rs = rs"
  by (induction rs) auto

lemma delete_absent:
  "faults d = [] \<Longrightarrow> i \<notin> id_col ` set (scd_operations d) \<Longrightarrow>
   DeleteOperationalIntent d i =
     (Some (NewError ''Could not delete Operation that does not exist''), d)"
  by (simp add: DeleteOperationalIntent_def fault_def filter_id_absent filter_id_others Let_def)

lemma delete_success_iff:
  "faults d = [] \<Longrightarrow>
   (fst (DeleteOperationalIntent d i) = None) = (i \<in> id_col ` set (scd_operations d))"
  by (auto simp add: DeleteOperationalIntent_def fault_def Let_def filter_empty_conv)

lemma delete_store:
  "faults d = [] \<Longrightarrow>
   scd_operations (snd (DeleteOperationalIntent d i)) =
     filter (\<lambda>r. id_col r \<noteq> i) (scd_operations d)"
  by (auto simp add: DeleteOperationalIntent_def fault_def Let_def)

lemma overlaps_iff: "overlaps xs ys = (set xs \<inter> set ys \<noteq> {})"
  by (auto simp: overlaps_def list_ex_iff)

lemma coalesce_ge: "COALESCE (sql_ge a b) True = (a = None \<or> opt_le b a)"
  by (cases a; cases b) simp_all

lemma coalesce_le: "COALESCE (sql_le a b) True = (a = None \<or> opt_le a b)"
  by (cases a; cases b) simp_all

lemma search_where_spec: "search_where a1 a2 a3 a4 a5 r = spec_matches a1 a2 a3 a4 a5 r"
  by (simp only: search_where_def spec_matches_def overlaps_iff coalesce_ge coalesce_le)

lemma fetch_fetched:
  "faults d = [] \<Longrightarrow> fetchOperationalIntents ovnf d qu =
     (Inr (map (fetched ovnf (snd (run_query d qu))) (fst (run_query d qu))), snd (run_query d qu))"
  by (simp add: fetch_healthy fetched_def)

lemma filter_key:
  "distinct (map id_col rs) \<Longrightarrow> r \<in> set rs \<Longrightarrow> filter (\<lambda>r'. id_col r' = id_col r) rs = [r]"
proof (induction rs)
  case Nil
  then show ?case by simp
next
  case (Cons a rs)
  show ?case
  proof (cases "a = r")
    case True
    with Cons.prems have "id_col r \<notin> id_col ` set rs" by auto
    then show ?thesis using True by (simp add: filter_id_absent)
  next
    case False
    with Cons.prems have "r \<in> set rs" "id_col a \<noteq> id_col r" by auto
    then show ?thesis using Cons by simp
  qed
qed

lemma unnest_key:
  "distinct (map id_col (scd_operations d)) \<Longrightarrow> r \<in> set (scd_operations d) \<Longrightarrow>
   unnest_cells d (id_col r) = cells r"
  by (simp add: unnest_cells_def filter_key)

lemma fetched_key:
  "distinct (map id_col (scd_operations d)) \<Longrightarrow> r \<in> set (scd_operations d) \<Longrightarrow>
   fetched ovnf d r = scan_row ovnf r"
  by (simp add: fetched_def unnest_key scan_row_def SetCells_def)

lemma get_stored:
  assumes "faults d = []" "distinct (map id_col (scd_operations d))" "r \<in> set (scd_operations d)"
  shows "GetOperationalIntent ovnf d (id_col r) = (Inr (Some (scan_row ovnf r)), d)"
  using assms
  by (simp add: GetOperationalIntent_def fetchOperationByID_def fetchOperationalIntent_def
      fetch_fetched filter_key fetched_key)

lemma upsert_row_ids:
  "id_col r \<in> set (map id_col rs) \<Longrightarrow> map id_col (upsert_row r rs) = map id_col rs"
proof -
  have "map id_col (map (\<lambda>r'. if id_col r' = id_col r then r else r') rs) = map id_col rs"
    by (induction rs) auto
  then show "id_col r \<in> set (map id_col rs) \<Longrightarrow> map id_col (upsert_row r rs) = map id_col rs"
    by (simp only: upsert_row_def if_True)
qed

lemma upsert_row_distinct:
  "distinct (map id_col rs) \<Longrightarrow> distinct (map id_col (upsert_row r rs))"
proof (cases "id_col r \<in> set (map id_col rs)")
  case True
  then show "distinct (map id_col rs) \<Longrightarrow> ?thesis" by (simp only: upsert_row_ids)
next
  case False
  then show "distinct (map id_col rs) \<Longrightarrow> ?thesis" by (simp add: upsert_row_def)
qed

lemma upsert_row_mem: "r \<in> set (upsert_row r rs)"
  by (auto simp: upsert_row_def)

lemma upsert_healthy:
  assumes "faults d = []"
  shows "UpsertOperationalIntent ovnf d operation =
     (Inr ((scan_row ovnf (upsert_values d operation))\<lparr>Cells := Cells operation\<rparr>),
      d\<lparr>scd_operations := upsert_row (upsert_values d operation) (scd_operations d)\<rparr>)"
  using assms
  by (simp add: UpsertOperationalIntent_def fetchOperationalIntent_def fetch_fetched
      upsert_values_def Let_def fetched_def scan_row_def SetCells_def)

lemma populate_Inr:
  "populateOperationalIntentCells d op = Inr op' \<Longrightarrow> \<exists>cs. op' = op\<lparr>Cells := cs\<rparr>"
  by (auto simp: populateOperationalIntentCells_def Let_def split: if_splits)

lemma populate_loop_single:
  "populate_loop d [op] = Inr ops \<Longrightarrow> \<exists>cs. ops = [op\<lparr>Cells := cs\<rparr>]"
  by (auto split: sum.splits dest: populate_Inr)

lemma fetch_Inr:
  assumes "fetchOperationalIntents ovnf d qu = (Inr ops, dd)"
  shows "dd = snd (run_query d qu)
    \<and> populate_loop dd (map (scan_row ovnf) (fst (run_query d qu))) = Inr ops"
proof -
  obtain rows d1 where rq: "run_query d qu = (rows, d1)"
    by (cases "run_query d qu")
  show ?thesis
    using assms rq
    by (auto simp: fetchOperationalIntents_def QueryContext_def split: if_splits)
qed

lemma get_after_upsert:
  assumes "faults d = []" and "distinct (map id_col (scd_operations d))"
  shows "GetOperationalIntent ovnf (snd (UpsertOperationalIntent ovnf d operation)) (ID operation) =
     (Inr (Some (scan_row ovnf (upsert_values d operation))),
      snd (UpsertOperationalIntent ovnf d operation))"
proof -
  let ?d' = "d\<lparr>scd_operations := upsert_row (upsert_values d operation) (scd_operations d)\<rparr>"
  have s: "snd (UpsertOperationalIntent ovnf d operation) = ?d'"
    by (simp add: upsert_healthy[OF assms(1)])
  have f: "faults ?d' = []" using assms(1) by simp
  have k: "distinct (map id_col (scd_operations ?d'))"
    using assms(2) by (simp add: upsert_row_distinct)
  have m: "upsert_values d operation \<in> set (scd_operations ?d')"
    by (simp add: upsert_row_mem)
  have i: "id_col (upsert_values d operation) = ID operation"
    by (simp add: upsert_values_def)
  show ?thesis
    using get_stored[OF f k m, of ovnf] by (simp only: s i)
qed

lemma search_healthy:
  assumes "faults d = []" and "SpatialVolume v4d = Some sv" and "Footprint sv = Some fp"
    and "CalculateCovering fp = Inr cs" and "cs \<noteq> []"
  shows "searchOperationalIntents ovnf d v4d =
      (Inr (map (fetched ovnf d)
             (filter (spec_matches (map int64 cs) (AltitudeLo sv) (AltitudeHi sv)
                        (StartTime_v4d v4d) (EndTime_v4d v4d))
                (scd_operations d))), d)"
proof -
  have w: "search_where (map int64 cs) (AltitudeLo sv) (AltitudeHi sv) (StartTime_v4d v4d)
        (EndTime_v4d v4d) = spec_matches (map int64 cs) (AltitudeLo sv) (AltitudeHi sv)
        (StartTime_v4d v4d) (EndTime_v4d v4d)"
    by (rule ext) (rule search_where_spec)
  show ?thesis
    using assms by (simp add: searchOperationalIntents_def fetch_fetched w)
qed

lemma populate_NoCode:
  "populateOperationalIntentCells d op = Inl e \<Longrightarrow> GetCode e = NoCode"
  by (auto simp: populateOperationalIntentCells_def Let_def split: if_splits)

lemma populate_loop_NoCode: "populate_loop d ops = Inl e \<Longrightarrow> GetCode e = NoCode"
proof (induction ops arbitrary: e)
  case Nil
  then show ?case by simp
next
  case (Cons a ops)
  then show ?case
    by (auto split: sum.splits dest: populate_NoCode)
qed

lemma fetch_NoCode:
  assumes "fst (fetchOperationalIntents ovnf d qu) = Inl e"
  shows "GetCode e = NoCode"
proof -
  obtain rows d1 where rq: "run_query d qu = (rows, d1)"
    by (cases "run_query d qu")
  show ?thesis
    using assms rq
    by (auto simp: fetchOperationalIntents_def QueryContext_def
        split: if_splits dest: populate_loop_NoCode)
qed

lemma populate_OVN:
  "populateOperationalIntentCells d op = Inr op' \<Longrightarrow> OVN op' = OVN op"
  by (auto dest: populate_Inr)

lemma populate_loop_OVN:
  "populate_loop d ops = Inr ops' \<Longrightarrow> map OVN ops' = map OVN ops"
proof (induction ops arbitrary: ops')
  case Nil
  then show ?case by simp
next
  case (Cons a ops)
  then show ?case
    by (auto split: sum.splits dest: populate_OVN)
qed

lemma scan_row_OVN: "OVN (scan_row ovnf r) = ovnf (updated_at r) (id_col r)"
  by (simp add: scan_row_def SetCells_def)

lemma get_store: "snd (GetOperationalIntent ovnf d i) = d"
  by (auto simp: GetOperationalIntent_def fetchOperationByID_def fetchOperationalIntent_def
      fetchOperationalIntents_def QueryContext_def split: sum.splits prod.splits list.splits)

section \<open>Properties of the transaction handler and of the bootstrap\<close>

lemma recover_swallows: "panicking (recoverRollbackRepanic g) = None"
  by (simp add: recoverRollbackRepanic_def recover_def Rollback_def split: option.splits)

lemma accepts_subscriptions:
  assumes "accepts subscriptions_table row"
  shows "(\<exists>xs. row ''cells'' = VArray xs \<and> xs \<noteq> [])
    \<and> (row ''starts_at'' \<noteq> VNull \<and> row ''ends_at'' \<noteq> VNull \<longrightarrow>
         (\<exists>a b. row ''starts_at'' = VTimestamp a \<and> row ''ends_at'' = VTimestamp b \<and> a < b))"
proof -
  have c: "has_type (row ''cells'') INT64_ARRAY" "row ''cells'' \<noteq> VNull"
    and s: "has_type (row ''starts_at'') TIMESTAMPTZ"
    and e: "has_type (row ''ends_at'') TIMESTAMPTZ"
    and k1: "eval row (And (Greater (ArrayLength (Col ''cells'') 1) (Lit 0))
             (IsNotNull (ArrayLength (Col ''cells'') 1))) \<noteq> VBool False"
    and k2: "eval row time_check \<noteq> VBool False"
    using assms by (simp_all add: accepts_def subscriptions_table_def column_ok_def)
  from c obtain xs where xs: "row ''cells'' = VArray xs"
    by (cases "row ''cells''") simp_all
  have ne: "xs \<noteq> []" using k1 xs by (auto split: if_splits)
  have t: "\<exists>a b. row ''starts_at'' = VTimestamp a \<and> row ''ends_at'' = VTimestamp b \<and> a < b"
    if "row ''starts_at'' \<noteq> VNull" "row ''ends_at'' \<noteq> VNull"
  proof -
    from s that(1) obtain a where a: "row ''starts_at'' = VTimestamp a"
      by (cases "row ''starts_at''") simp_all
    from e that(2) obtain b where b: "row ''ends_at'' = VTimestamp b"
      by (cases "row ''ends_at''") simp_all
    from k2 a b have "a < b" by (cases "a < b") (simp_all add: time_check_def)
    with a b show ?thesis by simp
  qed
  show ?thesis using xs ne t by blast
qed

lemma accepts_isa:
  assumes "accepts identification_service_areas_table row"
  shows "(\<exists>xs. row ''cells'' = VArray xs \<and> xs \<noteq> [])
    \<and> (row ''starts_at'' \<noteq> VNull \<and> row ''ends_at'' \<noteq> VNull \<longrightarrow>
         (\<exists>a b. row ''starts_at'' = VTimestamp a \<and> row ''ends_at'' = VTimestamp b \<and> a < b))"
proof -
  have c: "has_type (row ''cells'') INT64_ARRAY" "row ''cells'' \<noteq> VNull"
    and s: "has_type (row ''starts_at'') TIMESTAMPTZ"
    and e: "has_type (row ''ends_at'') TIMESTAMPTZ"
    and k1: "eval row (IsNotNull (ArrayLength (Col ''cells'') 1)) \<noteq> VBool False"
    and k2: "eval row time_check \<noteq> VBool False"
    using assms by (simp_all add: accepts_def identification_service_areas_table_def column_ok_def)
  from c obtain xs where xs: "row ''cells'' = VArray xs"
    by (cases "row ''cells''") simp_all
  have ne: "xs \<noteq> []" using k1 xs by (auto split: if_splits)
  have t: "\<exists>a b. row ''starts_at'' = VTimestamp a \<and> row ''ends_at'' = VTimestamp b \<and> a < b"
    if "row ''starts_at'' \<noteq> VNull" "row ''ends_at'' \<noteq> VNull"
  proof -
    from s that(1) obtain a where a: "row ''starts_at'' = VTimestamp a"
      by (cases "row ''starts_at''") simp_all
    from e that(2) obtain b where b: "row ''ends_at'' = VTimestamp b"
      by (cases "row ''ends_at''") simp_all
    from k2 a b have "a < b" by (cases "a < b") (simp_all add: time_check_def)
    with a b show ?thesis by simp
  qed
  show ?thesis using xs ne t by blast
qed

lemma create_names:
  "set (map fst (create_table_if_not_exists n t ts)) = insert n (set (map fst ts))"
  by (auto simp: create_table_if_not_exists_def)

lemma create_distinct:
  "distinct (map fst ts) \<Longrightarrow> distinct (map fst (create_table_if_not_exists n t ts))"
  by (auto simp: create_table_if_not_exists_def)

lemma create_again:
  "n \<in> set (map fst ts) \<Longrightarrow> create_table_if_not_exists n t ts = ts"
  by (simp add: create_table_if_not_exists_def)

lemma create_keeps:
  "map_of ts m = Some t' \<Longrightarrow> map_of (create_table_if_not_exists n t ts) m = Some t'"
  by (auto simp: create_table_if_not_exists_def)

lemma create_new:
  "n \<notin> set (map fst ts) \<Longrightarrow> map_of (create_table_if_not_exists n t ts) n = Some t"
  by (auto simp: create_table_if_not_exists_def map_add_Some_iff map_of_eq_None_iff)

lemma bootstrap_ok:
  assumes "(BootstrapStmt, AtExec) \<notin> set (exec_faults s)"
  shows "Bootstrap s = (None,
            s\<lparr>tables :=
                create_table_if_not_exists ''identification_service_areas''
                  identification_service_areas_table
                  (create_table_if_not_exists ''subscriptions'' subscriptions_table
                     (tables s))\<rparr>)"
  using assms by (simp add: Bootstrap_def)

lemma bootstrap_catalog0:
  "Bootstrap catalog0 =
     (None, \<lparr>tables = [(''subscriptions'', subscriptions_table),
                       (''identification_service_areas'', identification_service_areas_table)],
             exec_faults = []\<rparr>)"
  by (simp add: Bootstrap_def catalog0_def create_table_if_not_exists_def)

section \<open>Claims\<close>

text \<open>
  C5 (as amended).  In a store without driver faults, deleting an id that no row carries
  fails with the error "Could not delete Operation that does not exist", which is built
  without a code (it carries \<open>NoCode\<close>, not \<open>NotFound\<close>), and leaves the store as it was,
  so that a repeated attempt fails in the same way; the delete succeeds exactly when a
  row with the id was stored, and afterwards the table holds the other rows and no row
  with that id.
\<close>

theorem DeleteOperationalIntent_nonexistent:
  "faults d = [] \<Longrightarrow>
     (i \<notin> id_col ` set (scd_operations d) \<longrightarrow>
        DeleteOperationalIntent d i =
          (Some (NewError ''Could not delete Operation that does not exist''), d)
        \<and> DeleteOperationalIntent (snd (DeleteOperationalIntent d i)) i =
          (Some (NewError ''Could not delete Operation that does not exist''), d)
        \<and> map_option GetCode (fst (DeleteOperationalIntent d i)) = Some NoCode)
     \<and> ((fst (DeleteOperationalIntent d i) = None) = (i \<in> id_col ` set (scd_operations d)))
     \<and> scd_operations (snd (DeleteOperationalIntent d i)) =
         filter (\<lambda>r. id_col r \<noteq> i) (scd_operations d)
     \<and> i \<notin> id_col ` set (scd_operations (snd (DeleteOperationalIntent d i)))"
  by (auto simp add: delete_absent delete_success_iff delete_store)

theorem DeleteOperationalIntent_nonexistent_witness:
  "faults store2 = [] \<and> ''op3'' \<notin> id_col ` set (scd_operations store2)
   \<and> DeleteOperationalIntent store2 ''op3'' =
        (Some (NewError ''Could not delete Operation that does not exist''), store2)
   \<and> map_option GetCode (fst (DeleteOperationalIntent store2 ''op3'')) = Some NoCode
   \<and> fst (DeleteOperationalIntent store2 ''op1'') = None
   \<and> scd_operations (snd (DeleteOperationalIntent store2 ''op1'')) = [row2]"
proof -
  have h: "faults store2 = []" by (simp add: store2_def)
  have a: "''op3'' \<notin> id_col ` set (scd_operations store2)"
    by (simp add: store2_def row1_def row2_def)
  have b: "''op1'' \<in> id_col ` set (scd_operations store2)"
    by (simp add: store2_def row1_def row2_def)
  have c: "filter (\<lambda>r. id_col r \<noteq> ''op1'') (scd_operations store2) = [row2]"
    by (simp add: store2_def row1_def row2_def)
  show ?thesis
    using DeleteOperationalIntent_nonexistent[OF h, of "''op3''"]
      DeleteOperationalIntent_nonexistent[OF h, of "''op1''"] h a b c
    by simp
qed

text \<open>
  C5, counterexample.  The claim as stated fails: the error returned for an id that no
  row carries has no code, so it is not a \<open>NotFound\<close> error.
\<close>

theorem DeleteOperationalIntent_NotFound_counterexample:
  "''op3'' \<notin> id_col ` set (scd_operations store2)
   \<and> fst (DeleteOperationalIntent store2 ''op3'') =
       Some (NewError ''Could not delete Operation that does not exist'')
   \<and> GetCode (NewError ''Could not delete Operation that does not exist'') = NoCode
   \<and> GetCode (NewError ''Could not delete Operation that does not exist'') \<noteq> NotFound"
proof -
  have h: "faults store2 = []" by (simp add: store2_def)
  have a: "''op3'' \<notin> id_col ` set (scd_operations store2)"
    by (simp add: store2_def row1_def row2_def)
  show ?thesis using delete_absent[OF h a] a by simp
qed

text \<open>
  C10.  In a store without driver faults, getting an id that no row carries returns a
  nil entity and a nil error and leaves the store unchanged; a get of an id that more
  than one row carries, and any single-entity fetch whose statement yields more than one
  row, returns the error "Query returned %d Operations when only 0 or 1 was expected".
\<close>

theorem GetOperationalIntent_absent:
  "faults d = [] \<Longrightarrow>
     (i \<notin> id_col ` set (scd_operations d) \<longrightarrow> GetOperationalIntent ovnf d i = (Inr None, d))
     \<and> (1 < length (filter (\<lambda>r. id_col r = j) (scd_operations d)) \<longrightarrow>
          GetOperationalIntent ovnf d j =
            (Inl (NewError ''Query returned %d Operations when only 0 or 1 was expected''), d))
     \<and> (1 < length (fst (run_query d qu)) \<longrightarrow>
          fetchOperationalIntent ovnf d qu =
            (Inl (NewError ''Query returned %d Operations when only 0 or 1 was expected''),
             snd (run_query d qu)))"
  by (simp add: GetOperationalIntent_def fetchOperationByID_def fetchOperationalIntent_def
      fetch_healthy filter_id_absent)

theorem GetOperationalIntent_absent_witness:
  "faults store2 = [] \<and> ''op3'' \<notin> id_col ` set (scd_operations store2)
   \<and> GetOperationalIntent sample_ovn store2 ''op3'' = (Inr None, store2)
   \<and> 1 < length (fst (run_query store2 (SearchQuery [101] None None None None)))
   \<and> fetchOperationalIntent sample_ovn store2 (SearchQuery [101] None None None None) =
       (Inl (NewError ''Query returned %d Operations when only 0 or 1 was expected''), store2)
   \<and> faults store_dup = []
   \<and> 1 < length (filter (\<lambda>r. id_col r = ''op1'') (scd_operations store_dup))
   \<and> GetOperationalIntent sample_ovn store_dup ''op1'' =
       (Inl (NewError ''Query returned %d Operations when only 0 or 1 was expected''), store_dup)"
proof -
  have h: "faults store2 = []" by (simp add: store2_def)
  have a: "''op3'' \<notin> id_col ` set (scd_operations store2)"
    by (simp add: store2_def row1_def row2_def)
  have b: "run_query store2 (SearchQuery [101] None None None None) = ([row1, row2], store2)"
    by (simp add: store2_def row1_def row2_def search_where_def overlaps_def)
  have h': "faults store_dup = []" by (simp add: store_dup_def)
  have c: "1 < length (filter (\<lambda>r. id_col r = ''op1'') (scd_operations store_dup))"
    by (simp add: store_dup_def row1_def)
  have t1: "GetOperationalIntent sample_ovn store2 ''op3'' = (Inr None, store2)"
    and t3: "fetchOperationalIntent sample_ovn store2 (SearchQuery [101] None None None None) =
       (Inl (NewError ''Query returned %d Operations when only 0 or 1 was expected''), store2)"
    using GetOperationalIntent_absent[OF h, of "''op3''" sample_ovn _
        "SearchQuery [101] None None None None"] a b
    by simp_all
  have t2: "GetOperationalIntent sample_ovn store_dup ''op1'' =
       (Inl (NewError ''Query returned %d Operations when only 0 or 1 was expected''), store_dup)"
    using GetOperationalIntent_absent[OF h', of _ sample_ovn "''op1''"] c by blast
  show ?thesis using h a b h' c t1 t2 t3 by simp
qed

text \<open>
  C2.  In a store without driver faults, a search whose filter has a footprint with a
  non-empty covering returns exactly the entities of the stored rows that satisfy the
  matching rule of the specification, where \<open>spec_matches\<close> is taken over the stored cell
  identifiers and the covering's identifiers: the cell sets intersect, and each of the
  entity's four bounds is absent or ordered against the filter's bound.  In particular a
  row with \<open>ends_at = T\<close> that meets the other four conditions is returned by a filter
  whose start is exactly \<open>T\<close>.
\<close>

theorem searchOperationalIntents_matching:
  assumes "faults d = []" and "SpatialVolume v4d = Some sv" and "Footprint sv = Some fp"
    and "CalculateCovering fp = Inr cs" and "cs \<noteq> []"
  shows "searchOperationalIntents ovnf d v4d =
      (Inr (map (fetched ovnf d)
             (filter (spec_matches (map int64 cs) (AltitudeLo sv) (AltitudeHi sv)
                        (StartTime_v4d v4d) (EndTime_v4d v4d))
                (scd_operations d))), d)
    \<and> (\<forall>r T. r \<in> set (scd_operations d) \<and> ends_at r = Some T \<and> StartTime_v4d v4d = Some T
          \<and> set (cells r) \<inter> set (map int64 cs) \<noteq> {}
          \<and> (altitude_upper r = None \<or> opt_le (AltitudeLo sv) (altitude_upper r))
          \<and> (altitude_lower r = None \<or> opt_le (altitude_lower r) (AltitudeHi sv))
          \<and> (starts_at r = None \<or> opt_le (starts_at r) (EndTime_v4d v4d))
          \<longrightarrow> fetched ovnf d r \<in> set (map (fetched ovnf d)
                 (filter (spec_matches (map int64 cs) (AltitudeLo sv) (AltitudeHi sv)
                            (StartTime_v4d v4d) (EndTime_v4d v4d))
                    (scd_operations d))))"
proof -
  have w: "search_where (map int64 cs) (AltitudeLo sv) (AltitudeHi sv) (StartTime_v4d v4d)
        (EndTime_v4d v4d) = spec_matches (map int64 cs) (AltitudeLo sv) (AltitudeHi sv)
        (StartTime_v4d v4d) (EndTime_v4d v4d)"
    by (rule ext) (rule search_where_spec)
  have 1: "searchOperationalIntents ovnf d v4d =
      (Inr (map (fetched ovnf d)
             (filter (spec_matches (map int64 cs) (AltitudeLo sv) (AltitudeHi sv)
                        (StartTime_v4d v4d) (EndTime_v4d v4d))
                (scd_operations d))), d)"
    using assms by (simp add: searchOperationalIntents_def fetch_fetched w)
  have 2: "\<And>T r. StartTime_v4d v4d = Some T \<Longrightarrow> ends_at r = Some T \<Longrightarrow>
      set (cells r) \<inter> set (map int64 cs) \<noteq> {} \<Longrightarrow>
      altitude_upper r = None \<or> opt_le (AltitudeLo sv) (altitude_upper r) \<Longrightarrow>
      altitude_lower r = None \<or> opt_le (altitude_lower r) (AltitudeHi sv) \<Longrightarrow>
      starts_at r = None \<or> opt_le (starts_at r) (EndTime_v4d v4d) \<Longrightarrow>
      spec_matches (map int64 cs) (AltitudeLo sv) (AltitudeHi sv) (StartTime_v4d v4d)
        (EndTime_v4d v4d) r"
    by (simp add: spec_matches_def)
  show ?thesis using 1 2 by auto
qed

theorem searchOperationalIntents_matching_witness:
  "faults store2 = [] \<and> SpatialVolume filter1 = Some volume1
   \<and> Footprint volume1 = Some (Geometry (Inr [101, 200]))
   \<and> CalculateCovering (Geometry (Inr [101, 200])) = Inr [101, 200]
   \<and> [101, 200 :: CellID] \<noteq> []
   \<and> ends_at row1 = StartTime_v4d filter1
   \<and> searchOperationalIntents sample_ovn store2 filter1 =
       (Inr [fetched sample_ovn store2 row1, fetched sample_ovn store2 row2], store2)"
proof -
  have h1: "faults store2 = []" by (simp add: store2_def)
  have h2: "SpatialVolume filter1 = Some volume1" by (simp add: filter1_def)
  have h3: "Footprint volume1 = Some (Geometry (Inr [101, 200]))" by (simp add: volume1_def)
  have h4: "CalculateCovering (Geometry (Inr [101, 200])) = Inr [101, 200]" by simp
  have h5: "[101, 200 :: CellID] \<noteq> []" by simp
  have m: "filter (spec_matches (map int64 [101, 200]) (AltitudeLo volume1) (AltitudeHi volume1)
              (StartTime_v4d filter1) (EndTime_v4d filter1)) (scd_operations store2) = [row1, row2]"
    by (simp add: spec_matches_def int64_def volume1_def filter1_def store2_def row1_def row2_def)
  have b: "ends_at row1 = StartTime_v4d filter1" by (simp add: row1_def filter1_def)
  show ?thesis
    using searchOperationalIntents_matching[OF h1 h2 h3 h4 h5, of sample_ovn] h1 h2 h3 b m
    by simp
qed

text \<open>
  C9.  For a stored row of a store without driver faults and with \<open>id\<close> as key, the
  cells set by the core row fetch are the row's \<open>cells\<close> array; the unnest statement
  yields that array, so that \<open>populateOperationalIntentCells\<close>, applied to any entity
  that carries the row's id, whatever cells it held, replaces them by exactly the cells of
  the core row fetch; and get returns the entity with these cells.
\<close>

theorem cells_paths_agree:
  assumes "faults d = []" and "distinct (map id_col (scd_operations d))"
    and "r \<in> set (scd_operations d)"
  shows "Cells (scan_row ovnf r) = map CellID_uint64 (cells r)
    \<and> populateOperationalIntentCells d (scan_row ovnf r) = Inr (scan_row ovnf r)
    \<and> GetOperationalIntent ovnf d (id_col r) = (Inr (Some (scan_row ovnf r)), d)
    \<and> unnest_cells d (id_col r) = cells r
    \<and> (ID e = id_col r \<longrightarrow>
         populateOperationalIntentCells d e = Inr (e\<lparr>Cells := map CellID_uint64 (cells r)\<rparr>)
         \<and> (\<forall>e'. populateOperationalIntentCells d e = Inr e' \<longrightarrow>
                Cells e' = Cells (scan_row ovnf r)))"
proof -
  have c: "Cells (scan_row ovnf r) = map CellID_uint64 (cells r)"
    by (simp add: scan_row_def SetCells_def)
  have u: "unnest_cells d (id_col r) = cells r"
    using assms(2,3) by (rule unnest_key)
  have p: "populateOperationalIntentCells d e = Inr (e\<lparr>Cells := map CellID_uint64 (cells r)\<rparr>)"
    if "ID e = id_col r" for e
    using assms(1) that by (simp add: populate_healthy u)
  have "ID (scan_row ovnf r) = id_col r" by (simp add: scan_row_def SetCells_def)
  then have s: "populateOperationalIntentCells d (scan_row ovnf r) = Inr (scan_row ovnf r)"
    using p[of "scan_row ovnf r"] by (simp add: scan_row_def SetCells_def)
  have g: "GetOperationalIntent ovnf d (id_col r) = (Inr (Some (scan_row ovnf r)), d)"
    by (rule get_stored[OF assms])
  show ?thesis using c u p[of e] s g by auto
qed

theorem cells_paths_agree_witness:
  "faults store2 = [] \<and> distinct (map id_col (scd_operations store2))
   \<and> row1 \<in> set (scd_operations store2)
   \<and> Cells (scan_row sample_ovn row1) = [100, 101]
   \<and> populateOperationalIntentCells store2 (scan_row sample_ovn row1) =
        Inr (scan_row sample_ovn row1)
   \<and> GetOperationalIntent sample_ovn store2 ''op1'' = (Inr (Some (scan_row sample_ovn row1)), store2)
   \<and> ID intent1 = id_col row1 \<and> Cells intent1 = [100, 102]
   \<and> populateOperationalIntentCells store2 intent1 = Inr (intent1\<lparr>Cells := [100, 101]\<rparr>)"
proof -
  have h1: "faults store2 = []" by (simp add: store2_def)
  have h2: "distinct (map id_col (scd_operations store2))"
    by (simp add: store2_def row1_def row2_def)
  have h3: "row1 \<in> set (scd_operations store2)" by (simp add: store2_def)
  have c: "map CellID_uint64 (cells row1) = [100, 101]" by (simp add: row1_def CellID_uint64_def)
  have i: "id_col row1 = ''op1''" by (simp add: row1_def)
  have j: "ID intent1 = id_col row1" "Cells intent1 = [100, 102]"
    by (simp_all add: intent1_def row1_def)
  show ?thesis
    using cells_paths_agree[OF h1 h2 h3, of sample_ovn intent1] h1 h2 h3 c i j by simp
qed

text \<open>
  C6.  When an upsert succeeds, the table holds the written row, whose \<open>updated_at\<close> is
  the transaction timestamp of the store (the entity passed in has no say in it); the
  returned entity is the scan of that row with the cells of the input put back: each of
  its fields other than the cells and the OVN equals the column of the committed row,
  which is the field of the input, its cells are the input's cells, and its OVN is
  computed from the row's \<open>updated_at\<close>, the transaction timestamp, and the id.
\<close>

theorem UpsertOperationalIntent_committed:
  assumes "UpsertOperationalIntent ovnf d operation = (Inr result, d')"
  shows "scd_operations d' = upsert_row (upsert_values d operation) (scd_operations d)
    \<and> upsert_values d operation \<in> set (scd_operations d')
    \<and> updated_at (upsert_values d operation) = transaction_timestamp d
    \<and> cells (upsert_values d operation) = map int64 (Cells operation)
    \<and> result = (scan_row ovnf (upsert_values d operation))\<lparr>Cells := Cells operation\<rparr>
    \<and> Cells result = Cells operation
    \<and> OVN result = ovnf (transaction_timestamp d) (ID operation)
    \<and> ID result = id_col (upsert_values d operation)
    \<and> Manager result = owner (upsert_values d operation)
    \<and> Version result = version (upsert_values d operation)
    \<and> USSBaseURL result = url (upsert_values d operation)
    \<and> AltitudeLower result = altitude_lower (upsert_values d operation)
    \<and> AltitudeUpper result = altitude_upper (upsert_values d operation)
    \<and> StartTime result = starts_at (upsert_values d operation)
    \<and> EndTime result = ends_at (upsert_values d operation)
    \<and> SubscriptionID result = subscription_id (upsert_values d operation)
    \<and> State result = state (upsert_values d operation)
    \<and> OVN result = ovnf (updated_at (upsert_values d operation))
                         (id_col (upsert_values d operation))
    \<and> ID result = ID operation \<and> Manager result = Manager operation
    \<and> Version result = Version operation \<and> USSBaseURL result = USSBaseURL operation
    \<and> AltitudeLower result = AltitudeLower operation
    \<and> AltitudeUpper result = AltitudeUpper operation
    \<and> StartTime result = StartTime operation \<and> EndTime result = EndTime operation
    \<and> SubscriptionID result = SubscriptionID operation \<and> State result = State operation"
proof -
  define qu where "qu = UpsertQuery (ID operation) (Manager operation) (Version operation)
                   (USSBaseURL operation) (AltitudeLower operation) (AltitudeUpper operation)
                   (StartTime operation) (EndTime operation) (SubscriptionID operation)
                   (State operation) (map int64 (Cells operation))"
  have rq: "run_query d qu = ([upsert_values d operation],
             d\<lparr>scd_operations := upsert_row (upsert_values d operation) (scd_operations d)\<rparr>)"
    by (simp add: qu_def upsert_values_def Let_def)
  obtain res dd where f: "fetchOperationalIntent ovnf d qu = (res, dd)"
    by (cases "fetchOperationalIntent ovnf d qu")
  from assms f obtain op' where r: "res = Inr (Some op')" "d' = dd"
      "result = op'\<lparr>Cells := Cells operation\<rparr>"
    by (auto simp: UpsertOperationalIntent_def Let_def qu_def[symmetric]
        split: sum.splits option.splits)
  obtain res2 dd2 where g: "fetchOperationalIntents ovnf d qu = (res2, dd2)"
    by (cases "fetchOperationalIntents ovnf d qu")
  from f g r obtain ops where o: "res2 = Inr ops" "dd2 = dd" "ops = op' # tl ops"
    by (auto simp: fetchOperationalIntent_def split: sum.splits if_splits list.splits)
  have g': "fetchOperationalIntents ovnf d qu = (Inr ops, dd)"
    using g o(1,2) by simp
  have fi: "dd = snd (run_query d qu)
      \<and> populate_loop dd (map (scan_row ovnf) (fst (run_query d qu))) = Inr ops"
    by (rule fetch_Inr[OF g'])
  have dd: "dd = d\<lparr>scd_operations := upsert_row (upsert_values d operation) (scd_operations d)\<rparr>"
    using conjunct1[OF fi] by (simp only: rq snd_conv)
  have pl: "populate_loop dd [scan_row ovnf (upsert_values d operation)] = Inr ops"
    using conjunct2[OF fi] by (simp only: rq fst_conv list.map)
  from populate_loop_single[OF pl] o obtain cs where
    "op' = (scan_row ovnf (upsert_values d operation))\<lparr>Cells := cs\<rparr>"
    by auto
  with r have res: "result = (scan_row ovnf (upsert_values d operation))\<lparr>Cells := Cells operation\<rparr>"
    by simp
  show ?thesis
    using res dd r(2)
    by (simp add: upsert_row_mem) (simp add: upsert_values_def scan_row_def SetCells_def)
qed

theorem UpsertOperationalIntent_committed_witness:
  "UpsertOperationalIntent sample_ovn store2 intent1 =
     (Inr ((scan_row sample_ovn (upsert_values store2 intent1))\<lparr>Cells := [100, 102]\<rparr>),
      store2\<lparr>scd_operations := [upsert_values store2 intent1, row2]\<rparr>)
   \<and> updated_at (upsert_values store2 intent1) = 9
   \<and> OVN (scan_row sample_ovn (upsert_values store2 intent1)) = ''111111111:op1''"
proof -
  have h: "faults store2 = []" by (simp add: store2_def)
  have u: "UpsertOperationalIntent sample_ovn store2 intent1 =
     (Inr ((scan_row sample_ovn (upsert_values store2 intent1))\<lparr>Cells := [100, 102]\<rparr>),
      store2\<lparr>scd_operations := [upsert_values store2 intent1, row2]\<rparr>)"
  proof -
    have "upsert_row (upsert_values store2 intent1) (scd_operations store2) =
        [upsert_values store2 intent1, row2]"
      by (simp add: upsert_row_def upsert_values_def intent1_def store2_def row1_def row2_def)
    moreover have "Cells intent1 = [100, 102]" by (simp add: intent1_def)
    ultimately show ?thesis
      using upsert_healthy[OF h, of sample_ovn intent1] by simp
  qed
  show ?thesis
    using UpsertOperationalIntent_committed[OF u] u
    by (simp add: sample_ovn_def store2_def upsert_values_def intent1_def scan_row_def
        SetCells_def eval_nat_numeral)
qed

text \<open>
  C1 (as amended).  \<open>UpsertOperationalIntent\<close> takes no expected version token and
  performs no version check: the OVN carried by the entity is not read.  In a store
  without driver faults every upsert succeeds, replacing the row with the entity's id or
  adding it when there is none, whatever token the entity carries.  When a second update
  of the same id, with the same or any other token, follows, it succeeds as well, and a
  subsequent get reflects the second update.
\<close>

theorem UpsertOperationalIntent_unfenced:
  assumes "faults d = []"
  shows "UpsertOperationalIntent ovnf d operation =
      (Inr ((scan_row ovnf (upsert_values d operation))\<lparr>Cells := Cells operation\<rparr>),
       d\<lparr>scd_operations := upsert_row (upsert_values d operation) (scd_operations d)\<rparr>)
    \<and> UpsertOperationalIntent ovnf d (operation\<lparr>OVN := token\<rparr>) =
        UpsertOperationalIntent ovnf d operation
    \<and> (distinct (map id_col (scd_operations d)) \<and> ID second = ID operation \<longrightarrow>
         fst (UpsertOperationalIntent ovnf (snd (UpsertOperationalIntent ovnf d operation)) second) =
           Inr ((scan_row ovnf (upsert_values d second))\<lparr>Cells := Cells second\<rparr>)
         \<and> fst (GetOperationalIntent ovnf
                  (snd (UpsertOperationalIntent ovnf
                          (snd (UpsertOperationalIntent ovnf d operation)) second))
                  (ID operation)) =
             Inr (Some (scan_row ovnf (upsert_values d second))))"
proof -
  let ?d1 = "snd (UpsertOperationalIntent ovnf d operation)"
  have 1: "UpsertOperationalIntent ovnf d operation =
      (Inr ((scan_row ovnf (upsert_values d operation))\<lparr>Cells := Cells operation\<rparr>),
       d\<lparr>scd_operations := upsert_row (upsert_values d operation) (scd_operations d)\<rparr>)"
    by (rule upsert_healthy[OF assms])
  have 2: "UpsertOperationalIntent ovnf d (operation\<lparr>OVN := token\<rparr>) =
        UpsertOperationalIntent ovnf d operation"
    by (simp add: upsert_healthy[OF assms] upsert_values_def)
  have f1: "faults ?d1 = []" using assms by (simp add: 1)
  have v: "upsert_values ?d1 second = upsert_values d second"
    by (simp add: 1 upsert_values_def)
  have 3: "fst (UpsertOperationalIntent ovnf ?d1 second) =
           Inr ((scan_row ovnf (upsert_values d second))\<lparr>Cells := Cells second\<rparr>)"
    by (simp add: upsert_healthy[OF f1] v)
  have 4: "fst (GetOperationalIntent ovnf (snd (UpsertOperationalIntent ovnf ?d1 second)) (ID operation)) =
             Inr (Some (scan_row ovnf (upsert_values d second)))"
    if k: "distinct (map id_col (scd_operations d))" and e: "ID second = ID operation"
  proof -
    have k1: "distinct (map id_col (scd_operations ?d1))"
      using k by (simp add: 1 upsert_row_distinct)
    show ?thesis
      using get_after_upsert[OF f1 k1, of ovnf second] by (simp add: v e)
  qed
  show ?thesis using 1 2 3 4 by blast
qed

theorem UpsertOperationalIntent_unfenced_witness:
  "faults store0 = [] \<and> distinct (map id_col (scd_operations store0)) \<and> ID intent2 = ID intent1
   \<and> OVN intent2 = OVN intent1
   \<and> fst (UpsertOperationalIntent sample_ovn store0 intent1) =
       Inr ((scan_row sample_ovn (upsert_values store0 intent1))\<lparr>Cells := Cells intent1\<rparr>)
   \<and> fst (UpsertOperationalIntent sample_ovn
            (snd (UpsertOperationalIntent sample_ovn store0 intent1)) intent2) =
       Inr ((scan_row sample_ovn (upsert_values store0 intent2))\<lparr>Cells := Cells intent2\<rparr>)
   \<and> fst (GetOperationalIntent sample_ovn
            (snd (UpsertOperationalIntent sample_ovn
                    (snd (UpsertOperationalIntent sample_ovn store0 intent1)) intent2))
            (ID intent1)) =
       Inr (Some (scan_row sample_ovn (upsert_values store0 intent2)))"
proof -
  have h: "faults store0 = []" by (simp add: store0_def)
  have k: "distinct (map id_col (scd_operations store0))" by (simp add: store0_def)
  have e: "ID intent2 = ID intent1" "OVN intent2 = OVN intent1" by (simp_all add: intent2_def)
  note t = UpsertOperationalIntent_unfenced[OF h, of sample_ovn intent1 "OVN intent1" intent2]
  have c1: "fst (UpsertOperationalIntent sample_ovn store0 intent1) =
       Inr ((scan_row sample_ovn (upsert_values store0 intent1))\<lparr>Cells := Cells intent1\<rparr>)"
    using conjunct1[OF t] by (simp only: fst_conv)
  show ?thesis
    using conjunct2[OF conjunct2[OF t]] c1 h k e by blast
qed

text \<open>
  C1, counterexample.  The claim as stated fails: an update that carries the token \<open>stale-token\<close> succeeds and
  changes the store both when no row with the id exists and when the stored row's OVN
  is a different one.
\<close>

theorem UpsertOperationalIntent_VersionConflict_counterexample:
  "OVN intent1 = ''stale-token'' \<and> scd_operations store0 = []
   \<and> UpsertOperationalIntent sample_ovn store0 intent1 =
       (Inr ((scan_row sample_ovn (upsert_values store0 intent1))\<lparr>Cells := Cells intent1\<rparr>),
        store0\<lparr>scd_operations := [upsert_values store0 intent1]\<rparr>)
   \<and> OVN intent1 \<noteq> sample_ovn (updated_at row1) (id_col row1)
   \<and> id_col row1 = ID intent1 \<and> row1 \<in> set (scd_operations store2)
   \<and> UpsertOperationalIntent sample_ovn store2 intent1 =
       (Inr ((scan_row sample_ovn (upsert_values store2 intent1))\<lparr>Cells := Cells intent1\<rparr>),
        store2\<lparr>scd_operations := [upsert_values store2 intent1, row2]\<rparr>)
   \<and> row1 \<notin> set [upsert_values store2 intent1, row2]"
proof -
  have h0: "faults store0 = []" by (simp add: store0_def)
  have h2: "faults store2 = []" by (simp add: store2_def)
  have u0: "upsert_row (upsert_values store0 intent1) (scd_operations store0) =
      [upsert_values store0 intent1]"
    by (simp add: upsert_row_def store0_def)
  have u2: "upsert_row (upsert_values store2 intent1) (scd_operations store2) =
      [upsert_values store2 intent1, row2]"
    by (simp add: upsert_row_def upsert_values_def intent1_def store2_def row1_def row2_def)
  have a: "OVN intent1 = ''stale-token''" by (simp add: intent1_def)
  have b: "scd_operations store0 = []" by (simp add: store0_def)
  have c: "OVN intent1 \<noteq> sample_ovn (updated_at row1) (id_col row1)"
    by (simp add: intent1_def sample_ovn_def row1_def eval_nat_numeral)
  have d: "id_col row1 = ID intent1" "row1 \<in> set (scd_operations store2)"
    by (simp_all add: row1_def intent1_def store2_def)
  have e: "row1 \<notin> set [upsert_values store2 intent1, row2]"
    by (simp add: row1_def row2_def upsert_values_def intent1_def)
  have r0: "UpsertOperationalIntent sample_ovn store0 intent1 =
       (Inr ((scan_row sample_ovn (upsert_values store0 intent1))\<lparr>Cells := Cells intent1\<rparr>),
        store0\<lparr>scd_operations := [upsert_values store0 intent1]\<rparr>)"
    using upsert_healthy[OF h0, of sample_ovn intent1] by (simp only: u0)
  have r2: "UpsertOperationalIntent sample_ovn store2 intent1 =
       (Inr ((scan_row sample_ovn (upsert_values store2 intent1))\<lparr>Cells := Cells intent1\<rparr>),
        store2\<lparr>scd_operations := [upsert_values store2 intent1, row2]\<rparr>)"
    using upsert_healthy[OF h2, of sample_ovn intent1] by (simp only: u2)
  show ?thesis
    using r0 r2 a b c d e by blast
qed

text \<open>
  C7 (as amended).  A search fails with the code \<open>BadRequest\<close> if and only if the filter
  has no spatial volume or no footprint, or computing the covering of the footprint
  fails, or the covering is empty; driver faults never carry that code.  A well-formed
  filter that matches no stored row returns the empty list in a store without driver
  faults.
\<close>

theorem searchOperationalIntents_BadRequest:
  "((\<exists>e. fst (searchOperationalIntents ovnf d v4d) = Inl e \<and> GetCode e = BadRequest) =
      (SpatialVolume v4d = None
       \<or> (\<exists>sv. SpatialVolume v4d = Some sv
             \<and> (Footprint sv = None
                \<or> (\<exists>fp. Footprint sv = Some fp
                      \<and> ((\<exists>err. CalculateCovering fp = Inl err)
                         \<or> CalculateCovering fp = Inr []))))))
   \<and> (faults d = [] \<and> SpatialVolume v4d = Some sv \<and> Footprint sv = Some fp
        \<and> CalculateCovering fp = Inr cs \<and> cs \<noteq> []
        \<and> filter (spec_matches (map int64 cs) (AltitudeLo sv) (AltitudeHi sv)
                    (StartTime_v4d v4d) (EndTime_v4d v4d)) (scd_operations d) = []
      \<longrightarrow> searchOperationalIntents ovnf d v4d = (Inr [], d))"
proof -
  have a: "(\<exists>e. fst (searchOperationalIntents ovnf d v4d) = Inl e \<and> GetCode e = BadRequest) =
      (SpatialVolume v4d = None
       \<or> (\<exists>sv. SpatialVolume v4d = Some sv
             \<and> (Footprint sv = None
                \<or> (\<exists>fp. Footprint sv = Some fp
                      \<and> ((\<exists>err. CalculateCovering fp = Inl err)
                         \<or> CalculateCovering fp = Inr [])))))"
  proof (cases "SpatialVolume v4d")
    case None
    then show ?thesis by (simp add: searchOperationalIntents_def)
  next
    case (Some sv)
    show ?thesis
    proof (cases "Footprint sv")
      case None
      with Some show ?thesis by (simp add: searchOperationalIntents_def)
    next
      case fp: (Some fp)
      show ?thesis
      proof (cases "CalculateCovering fp")
        case (Inl err)
        with Some fp show ?thesis by (simp add: searchOperationalIntents_def)
      next
        case (Inr cs)
        show ?thesis
        proof (cases "cs = []")
          case True
          with Some fp Inr show ?thesis by (simp add: searchOperationalIntents_def)
        next
          case False
          let ?qu = "SearchQuery (map int64 cs) (AltitudeLo sv) (AltitudeHi sv)
                       (StartTime_v4d v4d) (EndTime_v4d v4d)"
          obtain res dd where f: "fetchOperationalIntents ovnf d ?qu = (res, dd)"
            by (cases "fetchOperationalIntents ovnf d ?qu")
          have "\<not> (\<exists>e. fst (searchOperationalIntents ovnf d v4d) = Inl e \<and> GetCode e = BadRequest)"
          proof (cases res)
            case (Inl e)
            then have "GetCode e = NoCode" using fetch_NoCode[of ovnf d ?qu e] f by simp
            then show ?thesis
              using Some fp Inr False f Inl by (simp add: searchOperationalIntents_def)
          next
            case r: (Inr ops)
            then show ?thesis
              using Some fp Inr False f by (simp add: searchOperationalIntents_def)
          qed
          then show ?thesis using Some fp Inr False by simp
        qed
      qed
    qed
  qed
  have b: "searchOperationalIntents ovnf d v4d = (Inr [], d)"
    if "faults d = []" "SpatialVolume v4d = Some sv" "Footprint sv = Some fp"
      "CalculateCovering fp = Inr cs" "cs \<noteq> []"
      "filter (spec_matches (map int64 cs) (AltitudeLo sv) (AltitudeHi sv)
                    (StartTime_v4d v4d) (EndTime_v4d v4d)) (scd_operations d) = []"
    using search_healthy[OF that(1-5), of ovnf] that(6)
    by simp
  show ?thesis using a b by blast
qed

theorem searchOperationalIntents_BadRequest_witness:
  "faults store2 = [] \<and> SpatialVolume filter_far = Some volume_far
   \<and> Footprint volume_far = Some (Geometry (Inr [999]))
   \<and> CalculateCovering (Geometry (Inr [999])) = Inr [999] \<and> [999 :: CellID] \<noteq> []
   \<and> filter (spec_matches (map int64 [999]) (AltitudeLo volume_far) (AltitudeHi volume_far)
               (StartTime_v4d filter_far) (EndTime_v4d filter_far)) (scd_operations store2) = []
   \<and> searchOperationalIntents sample_ovn store2 filter_far = (Inr [], store2)"
proof -
  have h1: "faults store2 = []" by (simp add: store2_def)
  have h2: "SpatialVolume filter_far = Some volume_far" by (simp add: filter_far_def)
  have h3: "Footprint volume_far = Some (Geometry (Inr [999]))" by (simp add: volume_far_def)
  have h4: "CalculateCovering (Geometry (Inr [999])) = Inr [999]" by simp
  have h5: "[999 :: CellID] \<noteq> []" by simp
  have h6: "filter (spec_matches (map int64 [999]) (AltitudeLo volume_far) (AltitudeHi volume_far)
               (StartTime_v4d filter_far) (EndTime_v4d filter_far)) (scd_operations store2) = []"
    by (simp add: spec_matches_def int64_def store2_def row1_def row2_def)
  show ?thesis
    using conjunct2[OF searchOperationalIntents_BadRequest,
        of store2 filter_far volume_far "Geometry (Inr [999])" "[999]" sample_ovn]
      h1 h2 h3 h4 h5 h6
    by blast
qed

text \<open>
  C7, counterexample.  The claim as stated fails: with a footprint whose covering computation returns an
  error the search fails with \<open>BadRequest\<close>, although the footprint is present and no
  empty covering was computed.
\<close>

theorem searchOperationalIntents_InvalidInput_counterexample:
  "fst (searchOperationalIntents sample_ovn store2 filter_bad) =
     Inl (PropagateWithCode CoveringError BadRequest ''Failed to calculate footprint covering'')
   \<and> GetCode (PropagateWithCode CoveringError BadRequest
        ''Failed to calculate footprint covering'') = BadRequest
   \<and> SpatialVolume filter_bad = Some volume_bad
   \<and> Footprint volume_bad = Some (Geometry (Inl CoveringError))
   \<and> CalculateCovering (Geometry (Inl CoveringError)) \<noteq> Inr []"
  by (simp add: searchOperationalIntents_def filter_bad_def volume_bad_def)

text \<open>
  C8 (as amended).  The OVN of every fetched entity is \<open>NewOVNFromTime\<close> of the
  \<open>updated_at\<close> and the id of its row, computed when the row is read; the table has no
  \<open>ovn\<close> column, and a get leaves the store as it is, so a repeated get of an unmutated
  row yields the same OVN.  A successful upsert of a stored id changes the OVN whenever
  \<open>NewOVNFromTime\<close> tells the transaction timestamp from the row's previous
  \<open>updated_at\<close> for that id.
\<close>

theorem OVN_from_updated_at:
  "(fetchOperationalIntents ovnf d qu = (Inr ops, d') \<longrightarrow>
      map OVN ops = map (\<lambda>r. ovnf (updated_at r) (id_col r)) (fst (run_query d qu)))
   \<and> GetOperationalIntent ovnf (snd (GetOperationalIntent ovnf d i)) i =
       GetOperationalIntent ovnf d i
   \<and> ''ovn'' \<notin> set operationFieldsWithIndices
   \<and> (faults d = [] \<and> distinct (map id_col (scd_operations d)) \<and> r \<in> set (scd_operations d)
        \<and> id_col r = ID operation
        \<and> ovnf (transaction_timestamp d) (ID operation) \<noteq> ovnf (updated_at r) (ID operation)
      \<longrightarrow> fst (GetOperationalIntent ovnf d (ID operation)) = Inr (Some (scan_row ovnf r))
        \<and> fst (GetOperationalIntent ovnf (snd (UpsertOperationalIntent ovnf d operation))
                 (ID operation)) = Inr (Some (scan_row ovnf (upsert_values d operation)))
        \<and> OVN (scan_row ovnf (upsert_values d operation)) \<noteq> OVN (scan_row ovnf r))"
proof -
  have 1: "map OVN ops = map (\<lambda>r. ovnf (updated_at r) (id_col r)) (fst (run_query d qu))"
    if "fetchOperationalIntents ovnf d qu = (Inr ops, d')"
    using populate_loop_OVN[OF conjunct2[OF fetch_Inr[OF that]]]
    by (simp add: comp_def scan_row_OVN)
  have 2: "GetOperationalIntent ovnf (snd (GetOperationalIntent ovnf d i)) i =
       GetOperationalIntent ovnf d i"
    by (simp only: get_store)
  have 3: "''ovn'' \<notin> set operationFieldsWithIndices"
    by (simp add: operationFieldsWithIndices_def)
  have 4: "fst (GetOperationalIntent ovnf d (ID operation)) = Inr (Some (scan_row ovnf r))
        \<and> fst (GetOperationalIntent ovnf (snd (UpsertOperationalIntent ovnf d operation))
                 (ID operation)) = Inr (Some (scan_row ovnf (upsert_values d operation)))
        \<and> OVN (scan_row ovnf (upsert_values d operation)) \<noteq> OVN (scan_row ovnf r)"
    if h: "faults d = []" and k: "distinct (map id_col (scd_operations d))"
      and m: "r \<in> set (scd_operations d)" and i: "id_col r = ID operation"
      and n: "ovnf (transaction_timestamp d) (ID operation) \<noteq> ovnf (updated_at r) (ID operation)"
  proof -
    have a: "fst (GetOperationalIntent ovnf d (ID operation)) = Inr (Some (scan_row ovnf r))"
      using get_stored[OF h k m, of ovnf] i by simp
    have b: "fst (GetOperationalIntent ovnf (snd (UpsertOperationalIntent ovnf d operation))
                 (ID operation)) = Inr (Some (scan_row ovnf (upsert_values d operation)))"
      using get_after_upsert[OF h k, of ovnf operation] by simp
    have c: "OVN (scan_row ovnf (upsert_values d operation)) \<noteq> OVN (scan_row ovnf r)"
      using n i by (simp add: scan_row_OVN upsert_values_def)
    show ?thesis using a b c by blast
  qed
  show ?thesis using 1 2 3 4 by blast
qed

theorem OVN_from_updated_at_witness:
  "faults store2 = [] \<and> distinct (map id_col (scd_operations store2))
   \<and> row1 \<in> set (scd_operations store2) \<and> id_col row1 = ID intent1
   \<and> sample_ovn (transaction_timestamp store2) (ID intent1) \<noteq>
       sample_ovn (updated_at row1) (ID intent1)
   \<and> fst (GetOperationalIntent sample_ovn store2 (ID intent1)) =
       Inr (Some (scan_row sample_ovn row1))
   \<and> fst (GetOperationalIntent sample_ovn
            (snd (UpsertOperationalIntent sample_ovn store2 intent1)) (ID intent1)) =
       Inr (Some (scan_row sample_ovn (upsert_values store2 intent1)))
   \<and> OVN (scan_row sample_ovn row1) = ''11111:op1''
   \<and> OVN (scan_row sample_ovn (upsert_values store2 intent1)) = ''111111111:op1''"
proof -
  have h: "faults store2 = []" by (simp add: store2_def)
  have k: "distinct (map id_col (scd_operations store2))"
    by (simp add: store2_def row1_def row2_def)
  have m: "row1 \<in> set (scd_operations store2)" by (simp add: store2_def)
  have i: "id_col row1 = ID intent1" by (simp add: row1_def intent1_def)
  have n: "sample_ovn (transaction_timestamp store2) (ID intent1) \<noteq>
       sample_ovn (updated_at row1) (ID intent1)"
    by (simp add: sample_ovn_def store2_def row1_def eval_nat_numeral)
  have o1: "OVN (scan_row sample_ovn row1) = ''11111:op1''"
    by (simp add: scan_row_OVN sample_ovn_def row1_def eval_nat_numeral)
  have o2: "OVN (scan_row sample_ovn (upsert_values store2 intent1)) = ''111111111:op1''"
    by (simp add: scan_row_OVN sample_ovn_def upsert_values_def store2_def intent1_def
        eval_nat_numeral)
  note t = conjunct2[OF conjunct2[OF conjunct2[OF OVN_from_updated_at]],
      of store2 row1 intent1 sample_ovn]
  show ?thesis using t h k m i n o1 o2 by blast
qed

text \<open>
  C8, counterexample.  The claim as stated fails: two upserts of one id in the same transaction write the same
  \<open>updated_at\<close>; the second changes the row and leaves the OVN as it was.
\<close>

theorem OVN_unchanged_counterexample:
  "UpsertOperationalIntent sample_ovn store0 intent1 =
     (Inr ((scan_row sample_ovn (upsert_values store0 intent1))\<lparr>Cells := Cells intent1\<rparr>),
      store0\<lparr>scd_operations := [upsert_values store0 intent1]\<rparr>)
   \<and> UpsertOperationalIntent sample_ovn
        (store0\<lparr>scd_operations := [upsert_values store0 intent1]\<rparr>) intent2 =
     (Inr ((scan_row sample_ovn (upsert_values store0 intent2))\<lparr>Cells := Cells intent2\<rparr>),
      store0\<lparr>scd_operations := [upsert_values store0 intent2]\<rparr>)
   \<and> upsert_values store0 intent2 \<noteq> upsert_values store0 intent1
   \<and> fst (GetOperationalIntent sample_ovn
            (store0\<lparr>scd_operations := [upsert_values store0 intent1]\<rparr>) ''op1'') =
       Inr (Some (scan_row sample_ovn (upsert_values store0 intent1)))
   \<and> fst (GetOperationalIntent sample_ovn
            (store0\<lparr>scd_operations := [upsert_values store0 intent2]\<rparr>) ''op1'') =
       Inr (Some (scan_row sample_ovn (upsert_values store0 intent2)))
   \<and> OVN (scan_row sample_ovn (upsert_values store0 intent2)) =
       OVN (scan_row sample_ovn (upsert_values store0 intent1))"
proof -
  let ?d1 = "store0\<lparr>scd_operations := [upsert_values store0 intent1]\<rparr>"
  let ?d2 = "store0\<lparr>scd_operations := [upsert_values store0 intent2]\<rparr>"
  have h0: "faults store0 = []" by (simp add: store0_def)
  have h1: "faults ?d1 = []" by (simp add: store0_def)
  have h2: "faults ?d2 = []" by (simp add: store0_def)
  have u0: "upsert_row (upsert_values store0 intent1) (scd_operations store0) =
      [upsert_values store0 intent1]"
    by (simp add: upsert_row_def store0_def)
  have v: "upsert_values ?d1 intent2 = upsert_values store0 intent2"
    by (simp add: upsert_values_def)
  have u1: "upsert_row (upsert_values store0 intent2) (scd_operations ?d1) =
      [upsert_values store0 intent2]"
    by (simp add: upsert_row_def upsert_values_def intent1_def intent2_def)
  have r0: "UpsertOperationalIntent sample_ovn store0 intent1 =
     (Inr ((scan_row sample_ovn (upsert_values store0 intent1))\<lparr>Cells := Cells intent1\<rparr>), ?d1)"
    using upsert_healthy[OF h0, of sample_ovn intent1] by (simp only: u0)
  have r1: "UpsertOperationalIntent sample_ovn ?d1 intent2 =
     (Inr ((scan_row sample_ovn (upsert_values store0 intent2))\<lparr>Cells := Cells intent2\<rparr>), ?d2)"
    using upsert_healthy[OF h1, of sample_ovn intent2] by (simp only: v u1) simp
  have ne: "upsert_values store0 intent2 \<noteq> upsert_values store0 intent1"
    by (simp add: upsert_values_def intent1_def intent2_def)
  have g1: "fst (GetOperationalIntent sample_ovn ?d1 ''op1'') =
       Inr (Some (scan_row sample_ovn (upsert_values store0 intent1)))"
    using get_stored[OF h1, of "upsert_values store0 intent1" sample_ovn]
    by (simp add: upsert_values_def intent1_def)
  have g2: "fst (GetOperationalIntent sample_ovn ?d2 ''op1'') =
       Inr (Some (scan_row sample_ovn (upsert_values store0 intent2)))"
    using get_stored[OF h2, of "upsert_values store0 intent2" sample_ovn]
    by (simp add: upsert_values_def intent1_def intent2_def)
  have o: "OVN (scan_row sample_ovn (upsert_values store0 intent2)) =
       OVN (scan_row sample_ovn (upsert_values store0 intent1))"
    by (simp add: scan_row_OVN upsert_values_def intent1_def intent2_def)
  show ?thesis using r0 r1 ne g1 g2 o by blast
qed

text \<open>
  C3.  The handler recovers the panic and rolls the transaction back, and then returns:
  after \<open>recoverRollbackRepanic\<close> no panic is in flight, so the fault does not reach the
  caller.
\<close>

theorem recoverRollbackRepanic_no_repanic:
  "recoverRollbackRepanic scope_panic =
     \<lparr>panicking = None, tx = TxRolledBack, log_lines = [], rollback_fault = False\<rparr>"
  by (simp add: recoverRollbackRepanic_def recover_def Rollback_def scope_panic_def)

text \<open>
  C4 (as amended).  When the driver executes the statement, \<open>Bootstrap\<close> succeeds and
  creates, if absent, two tables, \<open>subscriptions\<close> and \<open>identification_service_areas\<close>;
  tables that exist are left as they are and no name occurs twice; a table it created
  accepts only rows whose \<open>cells\<close> is a non-empty array and whose \<open>starts_at\<close> is before
  \<open>ends_at\<close> when both are present; running it again succeeds and changes nothing.
\<close>

theorem Bootstrap_idempotent:
  assumes "(BootstrapStmt, AtExec) \<notin> set (exec_faults s)"
  shows "fst (Bootstrap s) = None
    \<and> Bootstrap (snd (Bootstrap s)) = (None, snd (Bootstrap s))
    \<and> set (map fst (tables (snd (Bootstrap s)))) =
        set (map fst (tables s)) \<union> {''subscriptions'', ''identification_service_areas''}
    \<and> (distinct (map fst (tables s)) \<longrightarrow> distinct (map fst (tables (snd (Bootstrap s)))))
    \<and> (map_of (tables s) m = Some t \<longrightarrow> map_of (tables (snd (Bootstrap s))) m = Some t)
    \<and> ((n = ''subscriptions'' \<or> n = ''identification_service_areas'')
        \<and> n \<notin> set (map fst (tables s)) \<and> table_accepts (snd (Bootstrap s)) n row \<longrightarrow>
          (\<exists>xs. row ''cells'' = VArray xs \<and> xs \<noteq> [])
          \<and> (row ''starts_at'' \<noteq> VNull \<and> row ''ends_at'' \<noteq> VNull \<longrightarrow>
               (\<exists>a b. row ''starts_at'' = VTimestamp a \<and> row ''ends_at'' = VTimestamp b
                  \<and> a < b)))"
proof -
  let ?ts1 = "create_table_if_not_exists ''subscriptions'' subscriptions_table (tables s)"
  let ?ts2 = "create_table_if_not_exists ''identification_service_areas''
                  identification_service_areas_table ?ts1"
  have b: "Bootstrap s = (None, s\<lparr>tables := ?ts2\<rparr>)"
    by (rule bootstrap_ok[OF assms])
  have 1: "fst (Bootstrap s) = None" by (simp add: b)
  have in1: "''subscriptions'' \<in> set (map fst ?ts2)"
    by (simp only: create_names) simp
  have in2: "''identification_service_areas'' \<in> set (map fst ?ts2)"
    by (simp only: create_names) simp
  have again: "create_table_if_not_exists ''identification_service_areas''
                  identification_service_areas_table
                  (create_table_if_not_exists ''subscriptions'' subscriptions_table ?ts2) = ?ts2"
    using in1 in2 by (simp only: create_again)
  have f2: "(BootstrapStmt, AtExec) \<notin> set (exec_faults (s\<lparr>tables := ?ts2\<rparr>))"
    using assms by simp
  have 2: "Bootstrap (snd (Bootstrap s)) = (None, snd (Bootstrap s))"
    using bootstrap_ok[OF f2] again by (simp add: b)
  have 3: "set (map fst (tables (snd (Bootstrap s)))) =
        set (map fst (tables s)) \<union> {''subscriptions'', ''identification_service_areas''}"
    by (simp add: b create_names del: set_map) blast
  have 4: "distinct (map fst (tables (snd (Bootstrap s))))" if "distinct (map fst (tables s))"
    using that by (simp add: b create_distinct)
  have 5: "map_of (tables (snd (Bootstrap s))) m = Some t" if "map_of (tables s) m = Some t"
    using that by (simp add: b create_keeps)
  have 6: "(\<exists>xs. row ''cells'' = VArray xs \<and> xs \<noteq> [])
          \<and> (row ''starts_at'' \<noteq> VNull \<and> row ''ends_at'' \<noteq> VNull \<longrightarrow>
               (\<exists>a b. row ''starts_at'' = VTimestamp a \<and> row ''ends_at'' = VTimestamp b
                  \<and> a < b))"
    if n: "n = ''subscriptions'' \<or> n = ''identification_service_areas''"
      and a: "n \<notin> set (map fst (tables s))"
      and acc: "table_accepts (snd (Bootstrap s)) n row"
  proof -
    from n show ?thesis
    proof
      assume e: "n = ''subscriptions''"
      have "map_of ?ts1 ''subscriptions'' = Some subscriptions_table"
        using a e by (simp add: create_new)
      then have "map_of ?ts2 ''subscriptions'' = Some subscriptions_table"
        by (rule create_keeps)
      then have "accepts subscriptions_table row"
        using acc e by (simp add: table_accepts_def b)
      then show ?thesis by (rule accepts_subscriptions)
    next
      assume e: "n = ''identification_service_areas''"
      have "''identification_service_areas'' \<notin> set (map fst ?ts1)"
        using a e by (simp only: create_names) simp
      then have "map_of ?ts2 ''identification_service_areas'' =
          Some identification_service_areas_table"
        by (rule create_new)
      then have "accepts identification_service_areas_table row"
        using acc e by (simp add: table_accepts_def b)
      then show ?thesis by (rule accepts_isa)
    qed
  qed
  show ?thesis using 1 2 3 4 5 6 by blast
qed

theorem Bootstrap_idempotent_witness:
  "(BootstrapStmt, AtExec) \<notin> set (exec_faults catalog0)
   \<and> fst (Bootstrap catalog0) = None
   \<and> Bootstrap (snd (Bootstrap catalog0)) = (None, snd (Bootstrap catalog0))
   \<and> ''subscriptions'' \<notin> set (map fst (tables catalog0))
   \<and> table_accepts (snd (Bootstrap catalog0)) ''subscriptions'' sub_row
   \<and> sub_row ''cells'' = VArray [10, 11, 12]
   \<and> (\<exists>a b. sub_row ''starts_at'' = VTimestamp a \<and> sub_row ''ends_at'' = VTimestamp b \<and> a < b)"
proof -
  have h: "(BootstrapStmt, AtExec) \<notin> set (exec_faults catalog0)" by (simp add: catalog0_def)
  have a: "''subscriptions'' \<notin> set (map fst (tables catalog0))" by (simp add: catalog0_def)
  have acc: "table_accepts (snd (Bootstrap catalog0)) ''subscriptions'' sub_row"
    by (simp add: bootstrap_catalog0 table_accepts_def accepts_def subscriptions_table_def
        column_ok_def time_check_def sub_row_def)
  have c: "sub_row ''cells'' = VArray [10, 11, 12]" "sub_row ''starts_at'' \<noteq> VNull"
    "sub_row ''ends_at'' \<noteq> VNull"
    by (simp_all add: sub_row_def)
  note t = Bootstrap_idempotent[OF h, of _ _ "''subscriptions''" sub_row]
  show ?thesis using t h a acc c by blast
qed

text \<open>
  C4, counterexample.  The claim as stated fails: on an empty catalog \<open>Bootstrap\<close> creates two tables, and none
  for operational intents.
\<close>

theorem Bootstrap_three_stores_counterexample:
  "Bootstrap catalog0 =
     (None, \<lparr>tables = [(''subscriptions'', subscriptions_table),
                       (''identification_service_areas'', identification_service_areas_table)],
             exec_faults = []\<rparr>)
   \<and> length (tables (snd (Bootstrap catalog0))) = 2
   \<and> ''scd_operations'' \<notin> set (map fst (tables (snd (Bootstrap catalog0))))"
  by (simp add: bootstrap_catalog0)

end
